theory Spec2Isabelle
  imports Main "HOL-Library.Option_ord"
begin

section \<open>Data model\<close>

text \<open>
  The TypeScript interfaces of \<^verbatim>\<open>App.tsx\<close> and of the chat view, one record each.
  An optional property (\<^verbatim>\<open>name?: string\<close>) is an \<open>option\<close>; timestamps and counters are
  JavaScript numbers holding integers and are modelled as \<open>int\<close>; a string is the list of
  its UTF-8 bytes. Every field carries a prefix naming its record, since several interfaces share
  property names (\<^verbatim>\<open>id\<close>, \<^verbatim>\<open>conversationId\<close>, \<^verbatim>\<open>createdAt\<close>).
\<close>

datatype ConversationType = Private | Group

datatype MemberRole = Admin | Member | Guest

datatype MessageType = Text | File | Image

record User =
  u_id :: string
  u_email :: string
  u_displayName :: string
  u_avatarUrl :: "string option"
  u_status :: string
  u_lastSeen :: "int option"
  u_isGuest :: "bool option"
  u_guestName :: "string option"

record LastMessage =
  lm_content :: string
  lm_senderName :: string
  lm_createdAt :: int

record Conversation =
  c_id :: string
  c_type :: ConversationType
  c_name :: "string option"
  c_description :: "string option"
  c_avatarUrl :: "string option"
  c_createdBy :: string
  c_createdAt :: int
  c_updatedAt :: int
  c_lastMessageAt :: int
  c_members :: "User list option"
  c_lastMessage :: "LastMessage option"

record ConversationMember =
  cm_id :: string
  cm_conversationId :: string
  cm_userId :: string
  cm_role :: MemberRole
  cm_joinedAt :: "int option"

record Message =
  m_id :: string
  m_conversationId :: string
  m_userId :: string
  m_content :: "string option"
  m_messageType :: MessageType
  m_fileUrl :: "string option"
  m_fileName :: "string option"
  m_fileSize :: "int option"
  m_fileType :: "string option"
  m_createdAt :: int
  m_user :: "User option"

record Invite =
  i_id :: string
  i_conversationId :: string
  i_createdBy :: string
  i_inviteCode :: string
  i_expiresAt :: "int option"
  i_maxUses :: "int option"
  i_currentUses :: int
  i_isActive :: bool

datatype ToastVariant = Default | Destructive

record Toast =
  t_title :: string
  t_description :: string
  t_variant :: ToastVariant

section \<open>The world the handlers run in\<close>

text \<open>
  One record holds everything a handler can read or change: the five collections of the
  document store, the environment (clock, random source, failures of the store), the log
  of the store calls issued so far, the React state of \<^verbatim>\<open>App\<close> and the React state of the
  chat view. A handler is a function from this record to this record; one run of a handler
  is taken as atomic (no second handler runs between its steps).
\<close>

datatype Collection = Users | Conversations | ConversationMembers | Messages | Invites

datatype StoreCall = ListCall Collection | CreateCall Collection
  | CreateManyCall Collection | UpdateCall Collection

record state =
  db_users :: "User list"
  db_conversations :: "Conversation list"
  db_conversationMembers :: "ConversationMember list"
  db_messages :: "Message list"
  db_invites :: "Invite list"
  calls :: "StoreCall list"
  fails :: "nat \<Rightarrow> bool"
  now :: int
  elapse :: "nat \<Rightarrow> nat"
  random :: "nat \<Rightarrow> string"
  env_reads :: nat
  user :: "User option"
  conversations :: "Conversation list"
  selectedConversation :: "Conversation option"
  toasts :: "Toast list"
  messages :: "Message list"
  newMessage :: string
  loading :: bool
  sending :: bool

text \<open>
  A step of an \<^verbatim>\<open>async\<close> function either returns a value or throws; both leave a state.
\<close>

datatype 'a outcome = Returned 'a | Thrown

type_synonym 'a io = "state \<Rightarrow> 'a outcome \<times> state"

definition return :: "'a \<Rightarrow> 'a io" where
  "return a s = (Returned a, s)"

definition bind :: "'a io \<Rightarrow> ('a \<Rightarrow> 'b io) \<Rightarrow> 'b io" where
  "bind m f s = (case m s of (Thrown, s1) \<Rightarrow> (Thrown, s1) | (Returned a, s1) \<Rightarrow> f a s1)"

definition lift :: "(state \<Rightarrow> state) \<Rightarrow> unit io" where
  "lift f s = (Returned (), f s)"

text \<open>
  \<^verbatim>\<open>await Promise.all(xs.map(async x => ...))\<close>. The callbacks of this program only read the
  store, so the value does not depend on how they interleave; they are run one after the
  other, left to right, and the first one that throws rejects the whole.
\<close>

primrec traverse :: "('a \<Rightarrow> 'b io) \<Rightarrow> 'a list \<Rightarrow> 'b list io" where
  "traverse f [] = return []"
| "traverse f (x # xs) = bind (f x) (\<lambda>y. bind (traverse f xs) (\<lambda>ys. return (y # ys)))"

subsection \<open>Clock and random source\<close>

text \<open>
  \<^verbatim>\<open>Date.now()\<close>: a clock that does not run backwards. Before the \<open>k\<close>-th read of the
  environment the clock advances by \<open>elapse s k\<close> milliseconds, any natural number;
  \<open>clock_reading s\<close> is the value the next \<^verbatim>\<open>Date.now()\<close> returns.
  \<^verbatim>\<open>Math.random().toString(36).substr(2, 9)\<close> is the next string of the random source.
\<close>

definition clock_reading :: "state \<Rightarrow> int" where
  "clock_reading s = now s + int (elapse s (env_reads s))"

definition Date_now :: "int io" where
  "Date_now s =
     (let t = clock_reading s
      in (Returned t, s\<lparr>now := t, env_reads := Suc (env_reads s)\<rparr>))"

definition Math_random :: "string io" where
  "Math_random s = (Returned (random s (env_reads s)), s\<lparr>env_reads := Suc (env_reads s)\<rparr>)"

subsection \<open>JavaScript strings and truthiness\<close>

function string_of_nat :: "nat \<Rightarrow> string" where
  "string_of_nat n =
     (if n < 10 then [''0123456789'' ! n]
      else string_of_nat (n div 10) @ [''0123456789'' ! (n mod 10)])"
  by pat_completeness auto
termination
  by (relation "measure id") auto

definition string_of_int :: "int \<Rightarrow> string" where
  "string_of_int i = (if i < 0 then ''-'' @ string_of_nat (nat (- i)) else string_of_nat (nat i))"

text \<open>
  \<^verbatim>\<open>String.prototype.trim\<close> removes the white space and line terminators of ECMAScript from
  both ends: U+0009 to U+000D, U+0020, U+00A0, U+1680, U+2000 to U+200A, U+2028, U+2029,
  U+202F, U+205F, U+3000 and U+FEFF. \<open>whitespace\<close> lists their UTF-8 encodings; \<open>strip\<close>
  removes such encodings from the front for as long as there is one.
\<close>

definition whitespace :: "string list" where
  "whitespace =
     [[CHR 0x09], [CHR 0x0A], [CHR 0x0B], [CHR 0x0C], [CHR 0x0D], [CHR 0x20],
      [CHR 0xC2, CHR 0xA0], [CHR 0xE1, CHR 0x9A, CHR 0x80],
      [CHR 0xE2, CHR 0x80, CHR 0x80], [CHR 0xE2, CHR 0x80, CHR 0x81],
      [CHR 0xE2, CHR 0x80, CHR 0x82], [CHR 0xE2, CHR 0x80, CHR 0x83],
      [CHR 0xE2, CHR 0x80, CHR 0x84], [CHR 0xE2, CHR 0x80, CHR 0x85],
      [CHR 0xE2, CHR 0x80, CHR 0x86], [CHR 0xE2, CHR 0x80, CHR 0x87],
      [CHR 0xE2, CHR 0x80, CHR 0x88], [CHR 0xE2, CHR 0x80, CHR 0x89],
      [CHR 0xE2, CHR 0x80, CHR 0x8A], [CHR 0xE2, CHR 0x80, CHR 0xA8],
      [CHR 0xE2, CHR 0x80, CHR 0xA9], [CHR 0xE2, CHR 0x80, CHR 0xAF],
      [CHR 0xE2, CHR 0x81, CHR 0x9F], [CHR 0xE3, CHR 0x80, CHR 0x80],
      [CHR 0xEF, CHR 0xBB, CHR 0xBF]]"

function strip :: "string list \<Rightarrow> string \<Rightarrow> string" where
  "strip units s =
     (case find (\<lambda>w. w \<noteq> [] \<and> take (length w) s = w) units of
        None \<Rightarrow> s
      | Some w \<Rightarrow> strip units (drop (length w) s))"
  by pat_completeness auto
termination
proof (relation "measure (\<lambda>(units, s). length s)")
  show "wf (measure (\<lambda>(units, s). length s))" by simp
next
  fix units :: "string list" and s w :: string
  assume "find (\<lambda>w. w \<noteq> [] \<and> take (length w) s = w) units = Some w"
  then have w: "w \<noteq> []" and p: "take (length w) s = w"
    by (auto simp: find_Some_iff)
  from w have "0 < length w" by simp
  moreover have "min (length s) (length w) = length w"
    using arg_cong[OF p, of length] by simp
  then have "length w \<le> length s" by linarith
  ultimately show "((units, drop (length w) s), (units, s)) \<in> measure (\<lambda>(units, s). length s)"
    by (cases w) simp_all
qed

declare strip.simps [simp del]

definition trim :: "string \<Rightarrow> string" where
  "trim s = rev (strip (map rev whitespace) (rev (strip whitespace s)))"

text \<open>Truthiness of an optional number, string and boolean: absent, \<open>0\<close>, \<open>""\<close> and
  \<open>false\<close> are falsy.\<close>

definition truthy_num :: "int option \<Rightarrow> bool" where
  "truthy_num x = (case x of None \<Rightarrow> False | Some n \<Rightarrow> n \<noteq> 0)"

definition truthy_str :: "string option \<Rightarrow> bool" where
  "truthy_str x = (case x of None \<Rightarrow> False | Some t \<Rightarrow> t \<noteq> [])"

definition truthy_bool :: "bool option \<Rightarrow> bool" where
  "truthy_bool x = (case x of None \<Rightarrow> False | Some b \<Rightarrow> b)"

text \<open>An optional string inside a template literal: an absent property reads
  \<^verbatim>\<open>undefined\<close>.\<close>

definition template_str :: "string option \<Rightarrow> string" where
  "template_str x = (case x of None \<Rightarrow> ''undefined'' | Some t \<Rightarrow> t)"

text \<open>The paperclip sign U+1F4CE of the file preview, as its four UTF-8 bytes.\<close>

definition paperclip :: string where
  "paperclip = [CHR 0xF0, CHR 0x9F, CHR 0x93, CHR 0x8E]"

subsection \<open>The document store\<close>

text \<open>
  Modelled from the spec: the managed backend (\<^verbatim>\<open>blink.db\<close>) is not part of the
  repository. Section 6 of the specification gives its interface: per collection,
  \<^verbatim>\<open>list({where, orderBy, limit})\<close> returns the matching records in the requested order,
  \<^verbatim>\<open>create\<close> and \<^verbatim>\<open>createMany\<close> add records, \<^verbatim>\<open>update(id, partial)\<close> changes the record
  with that id. A collection is the list of its records in insertion order; the
  \<^verbatim>\<open>where\<close> clause is a predicate, \<^verbatim>\<open>orderBy\<close> a stable sort, \<^verbatim>\<open>limit\<close> a prefix.
\<close>

definition order_asc :: "('a \<Rightarrow> 'k::linorder) \<Rightarrow> 'a list \<Rightarrow> 'a list" where
  "order_asc key rows = sort_key key rows"

definition order_desc :: "('a \<Rightarrow> 'k::linorder) \<Rightarrow> 'a list \<Rightarrow> 'a list" where
  "order_desc key rows = rev (sort_key key (rev rows))"

definition unordered :: "'a list \<Rightarrow> 'a list" where
  "unordered rows = rows"

definition select :: "('a \<Rightarrow> bool) \<Rightarrow> ('a list \<Rightarrow> 'a list) \<Rightarrow> nat option \<Rightarrow> 'a list \<Rightarrow> 'a list" where
  "select wh ord lim rows =
     (case lim of None \<Rightarrow> ord (filter wh rows) | Some n \<Rightarrow> take n (ord (filter wh rows)))"

text \<open>
  Modelled from the spec: one call of the store. Every call is appended to the log. The
  \<open>k\<close>-th call throws when \<open>fails s k\<close> holds (network or store failure, a rejected write);
  a call that throws changes no record.
\<close>

definition store_call :: "StoreCall \<Rightarrow> (state \<Rightarrow> 'a \<times> state) \<Rightarrow> 'a io" where
  "store_call c effect s =
     (let s1 = s\<lparr>calls := calls s @ [c]\<rparr>
      in if fails s (length (calls s)) then (Thrown, s1)
         else (case effect s1 of (a, s2) \<Rightarrow> (Returned a, s2)))"

text \<open>Modelled from the spec: \<^verbatim>\<open>blink.db.<collection>.list\<close> for the five collections.\<close>

definition blink_users_list ::
  "(User \<Rightarrow> bool) \<Rightarrow> (User list \<Rightarrow> User list) \<Rightarrow> nat option \<Rightarrow> User list io" where
  "blink_users_list wh ord lim =
     store_call (ListCall Users) (\<lambda>s. (select wh ord lim (db_users s), s))"

definition blink_conversations_list ::
  "(Conversation \<Rightarrow> bool) \<Rightarrow> (Conversation list \<Rightarrow> Conversation list) \<Rightarrow> nat option
     \<Rightarrow> Conversation list io" where
  "blink_conversations_list wh ord lim =
     store_call (ListCall Conversations) (\<lambda>s. (select wh ord lim (db_conversations s), s))"

definition blink_conversationMembers_list ::
  "(ConversationMember \<Rightarrow> bool) \<Rightarrow> (ConversationMember list \<Rightarrow> ConversationMember list)
     \<Rightarrow> nat option \<Rightarrow> ConversationMember list io" where
  "blink_conversationMembers_list wh ord lim =
     store_call (ListCall ConversationMembers)
       (\<lambda>s. (select wh ord lim (db_conversationMembers s), s))"

definition blink_messages_list ::
  "(Message \<Rightarrow> bool) \<Rightarrow> (Message list \<Rightarrow> Message list) \<Rightarrow> nat option \<Rightarrow> Message list io" where
  "blink_messages_list wh ord lim =
     store_call (ListCall Messages) (\<lambda>s. (select wh ord lim (db_messages s), s))"

definition blink_invites_list ::
  "(Invite \<Rightarrow> bool) \<Rightarrow> (Invite list \<Rightarrow> Invite list) \<Rightarrow> nat option \<Rightarrow> Invite list io" where
  "blink_invites_list wh ord lim =
     store_call (ListCall Invites) (\<lambda>s. (select wh ord lim (db_invites s), s))"

text \<open>Modelled from the spec: \<^verbatim>\<open>create\<close>, \<^verbatim>\<open>createMany\<close> and \<^verbatim>\<open>update\<close>, for the collections
  the handlers write. A partial record is the function that overwrites its fields.\<close>

definition blink_conversations_create :: "Conversation \<Rightarrow> unit io" where
  "blink_conversations_create row =
     store_call (CreateCall Conversations)
       (\<lambda>s. ((), s\<lparr>db_conversations := db_conversations s @ [row]\<rparr>))"

definition blink_conversationMembers_create :: "ConversationMember \<Rightarrow> unit io" where
  "blink_conversationMembers_create row =
     store_call (CreateCall ConversationMembers)
       (\<lambda>s. ((), s\<lparr>db_conversationMembers := db_conversationMembers s @ [row]\<rparr>))"

definition blink_conversationMembers_createMany :: "ConversationMember list \<Rightarrow> unit io" where
  "blink_conversationMembers_createMany rows =
     store_call (CreateManyCall ConversationMembers)
       (\<lambda>s. ((), s\<lparr>db_conversationMembers := db_conversationMembers s @ rows\<rparr>))"

definition blink_messages_create :: "Message \<Rightarrow> unit io" where
  "blink_messages_create row =
     store_call (CreateCall Messages) (\<lambda>s. ((), s\<lparr>db_messages := db_messages s @ [row]\<rparr>))"

definition blink_conversations_update :: "string \<Rightarrow> (Conversation \<Rightarrow> Conversation) \<Rightarrow> unit io" where
  "blink_conversations_update ident patch =
     store_call (UpdateCall Conversations)
       (\<lambda>s. ((), s\<lparr>db_conversations :=
                      map (\<lambda>c. if c_id c = ident then patch c else c) (db_conversations s)\<rparr>))"

definition blink_invites_update :: "string \<Rightarrow> (Invite \<Rightarrow> Invite) \<Rightarrow> unit io" where
  "blink_invites_update ident patch =
     store_call (UpdateCall Invites)
       (\<lambda>s. ((), s\<lparr>db_invites :=
                      map (\<lambda>i. if i_id i = ident then patch i else i) (db_invites s)\<rparr>))"

section \<open>App.tsx\<close>

subsection \<open>React state setters and toasts\<close>

definition setConversations :: "Conversation list \<Rightarrow> unit io" where
  "setConversations cs s = (Returned (), s\<lparr>conversations := cs\<rparr>)"

definition setSelectedConversation :: "Conversation \<Rightarrow> unit io" where
  "setSelectedConversation c s = (Returned (), s\<lparr>selectedConversation := Some c\<rparr>)"

definition toast :: "Toast \<Rightarrow> unit io" where
  "toast t s = (Returned (), s\<lparr>toasts := toasts s @ [t]\<rparr>)"

definition load_conversations_failed :: Toast where
  "load_conversations_failed =
     \<lparr>t_title = ''Error'', t_description = ''Failed to load conversations'',
      t_variant = Destructive\<rparr>"

definition invalid_invite :: Toast where
  "invalid_invite =
     \<lparr>t_title = ''Invalid Invite'', t_description = ''This invite link is invalid or has expired'',
      t_variant = Destructive\<rparr>"

definition expired_invite :: Toast where
  "expired_invite =
     \<lparr>t_title = ''Expired Invite'', t_description = ''This invite link has expired'',
      t_variant = Destructive\<rparr>"

definition invite_limit_reached :: Toast where
  "invite_limit_reached =
     \<lparr>t_title = ''Invite Limit Reached'',
      t_description = ''This invite link has reached its usage limit'',
      t_variant = Destructive\<rparr>"

definition joined_chat :: Toast where
  "joined_chat =
     \<lparr>t_title = ''Joined Chat!'',
      t_description = ''You've successfully joined the conversation'',
      t_variant = Default\<rparr>"

definition join_failed :: Toast where
  "join_failed =
     \<lparr>t_title = ''Error'', t_description = ''Failed to join conversation'',
      t_variant = Destructive\<rparr>"

definition private_chat_created :: Toast where
  "private_chat_created =
     \<lparr>t_title = ''Success'', t_description = ''Private chat created successfully'',
      t_variant = Default\<rparr>"

definition private_chat_failed :: Toast where
  "private_chat_failed =
     \<lparr>t_title = ''Error'', t_description = ''Failed to create private chat'',
      t_variant = Destructive\<rparr>"

definition group_created :: Toast where
  "group_created =
     \<lparr>t_title = ''Success'', t_description = ''Group chat created successfully'',
      t_variant = Default\<rparr>"

definition group_failed :: Toast where
  "group_failed =
     \<lparr>t_title = ''Error'', t_description = ''Failed to create group chat'',
      t_variant = Destructive\<rparr>"

definition load_messages_failed :: Toast where
  "load_messages_failed =
     \<lparr>t_title = ''Error'', t_description = ''Failed to load messages'',
      t_variant = Destructive\<rparr>"

definition send_failed :: Toast where
  "send_failed =
     \<lparr>t_title = ''Error'', t_description = ''Failed to send message'',
      t_variant = Destructive\<rparr>"

text \<open>\<^verbatim>\<open>try { body } catch (error) { console.error(...); toast(t) }\<close> around an async body.\<close>

definition try_catch_toast :: "unit io \<Rightarrow> Toast \<Rightarrow> state \<Rightarrow> state" where
  "try_catch_toast body t s =
     (case body s of (Returned _, s1) \<Rightarrow> s1 | (Thrown, s1) \<Rightarrow> s1\<lparr>toasts := toasts s1 @ [t]\<rparr>)"

subsection \<open>loadConversations\<close>

text \<open>The preview text of the last message (line 101).\<close>

definition preview_content :: "Message \<Rightarrow> string" where
  "preview_content msg =
     (if truthy_str (m_content msg) then the (m_content msg)
      else if m_messageType msg = File then paperclip @ '' '' @ template_str (m_fileName msg)
      else ''File'')"

definition sender_name :: "User list \<Rightarrow> string" where
  "sender_name sender =
     (case sender of [] \<Rightarrow> ''Unknown''
      | u # _ \<Rightarrow> if u_displayName u = [] then ''Unknown'' else u_displayName u)"

definition first_row :: "'a list \<Rightarrow> 'a option" where
  "first_row rows = (case rows of [] \<Rightarrow> None | r # _ \<Rightarrow> Some r)"

definition last_message_of :: "Conversation \<Rightarrow> LastMessage option io" where
  "last_message_of conv =
     bind (blink_messages_list (\<lambda>m. m_conversationId m = c_id conv) (order_desc m_createdAt) (Some 1))
       (\<lambda>lastMessages.
          case lastMessages of
            [] \<Rightarrow> return None
          | msg # _ \<Rightarrow>
              bind (blink_users_list (\<lambda>u. u_id u = m_userId msg) unordered (Some 1))
                (\<lambda>sender.
                   return (Some \<lparr>lm_content = preview_content msg,
                                 lm_senderName = sender_name sender,
                                 lm_createdAt = m_createdAt msg\<rparr>)))"

definition members_of :: "Conversation \<Rightarrow> User list option io" where
  "members_of conv =
     (if c_type conv = Group then
        bind (blink_conversationMembers_list (\<lambda>m. cm_conversationId m = c_id conv) unordered None)
          (\<lambda>memberIds.
             bind (traverse
                     (\<lambda>m. bind (blink_users_list (\<lambda>u. u_id u = cm_userId m) unordered (Some 1))
                             (\<lambda>userData. return (first_row userData)))
                     memberIds)
               (\<lambda>memberDetails. return (Some (List.map_filter (\<lambda>d. d) memberDetails))))
      else return None)"

definition conversation_with_details :: "Conversation \<Rightarrow> Conversation io" where
  "conversation_with_details conv =
     bind (last_message_of conv)
       (\<lambda>lastMessage.
          bind (members_of conv)
            (\<lambda>members. return (conv\<lparr>c_members := members, c_lastMessage := lastMessage\<rparr>)))"

definition loadConversations_body :: "string \<Rightarrow> unit io" where
  "loadConversations_body userId =
     bind (blink_conversationMembers_list (\<lambda>m. cm_userId m = userId) (order_desc cm_joinedAt) None)
       (\<lambda>membershipData.
          if length membershipData = 0 then setConversations []
          else
            let conversationIds = map cm_conversationId membershipData in
            bind (blink_conversations_list (\<lambda>c. list_ex (\<lambda>i. c_id c = i) conversationIds)
                    (order_desc c_lastMessageAt) None)
              (\<lambda>conversationsData.
                 bind (traverse conversation_with_details conversationsData)
                   (\<lambda>conversationsWithDetails. setConversations conversationsWithDetails)))"

definition loadConversations :: "string \<Rightarrow> state \<Rightarrow> state" where
  "loadConversations userId = try_catch_toast (loadConversations_body userId) load_conversations_failed"

subsection \<open>handleInviteJoin\<close>

text \<open>\<^verbatim>\<open>invite.expiresAt && invite.expiresAt < Date.now()\<close>: the clock is read only when
  the left operand is truthy.\<close>

definition invite_expired :: "Invite \<Rightarrow> bool io" where
  "invite_expired invite =
     (case i_expiresAt invite of
        None \<Rightarrow> return False
      | Some e \<Rightarrow> if e = 0 then return False else bind Date_now (\<lambda>t. return (e < t)))"

text \<open>\<^verbatim>\<open>invite.maxUses && invite.currentUses >= invite.maxUses\<close>.\<close>

definition invite_limit :: "Invite \<Rightarrow> bool" where
  "invite_limit invite =
     (case i_maxUses invite of
        None \<Rightarrow> False
      | Some mx \<Rightarrow> mx \<noteq> 0 \<and> i_currentUses invite \<ge> mx)"

definition add_member :: "User \<Rightarrow> Invite \<Rightarrow> unit io" where
  "add_member currentUser invite =
     bind Date_now (\<lambda>t. bind Math_random (\<lambda>r.
       bind (blink_conversationMembers_create
               \<lparr>cm_id = ''member_'' @ string_of_int t @ ''_'' @ r,
                cm_conversationId = i_conversationId invite,
                cm_userId = u_id currentUser,
                cm_role = (if truthy_bool (u_isGuest currentUser) then Guest else Member),
                cm_joinedAt = None\<rparr>)
         (\<lambda>_. blink_invites_update (i_id invite)
                 (\<lambda>i. i\<lparr>i_currentUses := i_currentUses invite + 1\<rparr>))))"

definition select_invited :: "Invite \<Rightarrow> unit io" where
  "select_invited invite =
     bind (blink_conversations_list (\<lambda>c. c_id c = i_conversationId invite) unordered (Some 1))
       (\<lambda>conv. case conv of [] \<Rightarrow> return () | c0 # _ \<Rightarrow> setSelectedConversation c0)"

definition handleInviteJoin_body :: "User \<Rightarrow> string \<Rightarrow> unit io" where
  "handleInviteJoin_body currentUser code =
     bind (blink_invites_list (\<lambda>i. i_inviteCode i = code \<and> i_isActive i) unordered (Some 1))
       (\<lambda>invites.
          case invites of
            [] \<Rightarrow> toast invalid_invite
          | invite # _ \<Rightarrow>
              bind (invite_expired invite)
                (\<lambda>expired.
                   if expired then toast expired_invite
                   else if invite_limit invite then toast invite_limit_reached
                   else
                     bind (blink_conversationMembers_list
                             (\<lambda>m. cm_conversationId m = i_conversationId invite
                                   \<and> cm_userId m = u_id currentUser)
                             unordered (Some 1))
                       (\<lambda>existingMembership.
                          bind (if length existingMembership = 0
                                then add_member currentUser invite else return ())
                            (\<lambda>_. bind (lift (loadConversations (u_id currentUser)))
                              (\<lambda>_. bind (select_invited invite)
                                (\<lambda>_. toast joined_chat))))))"

definition handleInviteJoin :: "User \<Rightarrow> string \<Rightarrow> state \<Rightarrow> state" where
  "handleInviteJoin currentUser code =
     try_catch_toast (handleInviteJoin_body currentUser code) join_failed"

subsection \<open>handleCreatePrivateChat\<close>

text \<open>The \<^verbatim>\<open>for (const membership of existingMemberships)\<close> loop; \<open>Some c\<close> is the
  \<^verbatim>\<open>return\<close> from inside the loop, with the conversation to select.\<close>

primrec find_existing_private :: "string \<Rightarrow> ConversationMember list \<Rightarrow> Conversation option io" where
  "find_existing_private targetUserId [] = return None"
| "find_existing_private targetUserId (membership # rest) =
     bind (blink_conversations_list
             (\<lambda>c. c_id c = cm_conversationId membership \<and> c_type c = Private)
             unordered (Some 1))
       (\<lambda>conv.
          case conv of
            [] \<Rightarrow> find_existing_private targetUserId rest
          | c0 # _ \<Rightarrow>
              bind (blink_conversationMembers_list (\<lambda>m. cm_conversationId m = c_id c0)
                      unordered None)
                (\<lambda>otherMembers.
                   if length otherMembers = 2
                      \<and> list_ex (\<lambda>m. cm_userId m = targetUserId) otherMembers
                   then return (Some c0)
                   else find_existing_private targetUserId rest))"

definition create_private :: "User \<Rightarrow> string \<Rightarrow> unit io" where
  "create_private usr targetUserId =
     bind Date_now (\<lambda>t0. bind Math_random (\<lambda>r.
       let conversationId = ''conv_'' @ string_of_int t0 @ ''_'' @ r in
       bind Date_now (\<lambda>t1. bind Date_now (\<lambda>t2. bind Date_now (\<lambda>t3.
         bind (blink_conversations_create
                 \<lparr>c_id = conversationId, c_type = Private, c_name = None,
                  c_description = None, c_avatarUrl = None, c_createdBy = u_id usr,
                  c_createdAt = t1, c_updatedAt = t2, c_lastMessageAt = t3,
                  c_members = None, c_lastMessage = None\<rparr>)
           (\<lambda>_. bind Date_now (\<lambda>t4. bind Date_now (\<lambda>t5.
              bind (blink_conversationMembers_createMany
                      [\<lparr>cm_id = ''member_'' @ string_of_int t4 @ ''_1'',
                        cm_conversationId = conversationId, cm_userId = u_id usr,
                        cm_role = Member, cm_joinedAt = None\<rparr>,
                       \<lparr>cm_id = ''member_'' @ string_of_int t5 @ ''_2'',
                        cm_conversationId = conversationId, cm_userId = targetUserId,
                        cm_role = Member, cm_joinedAt = None\<rparr>])
                (\<lambda>_. bind (lift (loadConversations (u_id usr)))
                  (\<lambda>_. toast private_chat_created))))))))))"

definition handleCreatePrivateChat_body :: "User \<Rightarrow> string \<Rightarrow> unit io" where
  "handleCreatePrivateChat_body usr targetUserId =
     bind (blink_conversationMembers_list (\<lambda>m. cm_userId m = u_id usr) unordered None)
       (\<lambda>existingMemberships.
          bind (find_existing_private targetUserId existingMemberships)
            (\<lambda>found. case found of
                        Some c0 \<Rightarrow> setSelectedConversation c0
                      | None \<Rightarrow> create_private usr targetUserId))"

definition handleCreatePrivateChat :: "string \<Rightarrow> state \<Rightarrow> state" where
  "handleCreatePrivateChat targetUserId s =
     (case user s of
        None \<Rightarrow> s
      | Some usr \<Rightarrow>
          try_catch_toast (handleCreatePrivateChat_body usr targetUserId) private_chat_failed s)"

subsection \<open>handleCreateGroup\<close>

text \<open>The \<^verbatim>\<open>memberIds.forEach((memberId, index) => members.push(...))\<close> loop; every
  pushed record reads the clock for its id.\<close>

primrec other_members :: "string \<Rightarrow> nat \<Rightarrow> string list \<Rightarrow> ConversationMember list io" where
  "other_members conversationId index [] = return []"
| "other_members conversationId index (memberId # rest) =
     bind Date_now (\<lambda>t.
       bind (other_members conversationId (Suc index) rest)
         (\<lambda>rows. return (\<lparr>cm_id = ''member_'' @ string_of_int t @ ''_'' @ string_of_nat (index + 1),
                           cm_conversationId = conversationId, cm_userId = memberId,
                           cm_role = Member, cm_joinedAt = None\<rparr> # rows)))"

definition handleCreateGroup_body :: "User \<Rightarrow> string \<Rightarrow> string \<Rightarrow> string list \<Rightarrow> unit io" where
  "handleCreateGroup_body usr name description memberIds =
     bind Date_now (\<lambda>t0. bind Math_random (\<lambda>r.
       let conversationId = ''conv_'' @ string_of_int t0 @ ''_'' @ r in
       bind Date_now (\<lambda>t1. bind Date_now (\<lambda>t2. bind Date_now (\<lambda>t3.
         bind (blink_conversations_create
                 \<lparr>c_id = conversationId, c_type = Group, c_name = Some name,
                  c_description = Some description, c_avatarUrl = None,
                  c_createdBy = u_id usr, c_createdAt = t1, c_updatedAt = t2,
                  c_lastMessageAt = t3, c_members = None, c_lastMessage = None\<rparr>)
           (\<lambda>_. bind Date_now (\<lambda>t4.
              bind (other_members conversationId 0 memberIds) (\<lambda>others.
                let members =
                      \<lparr>cm_id = ''member_'' @ string_of_int t4 @ ''_0'',
                       cm_conversationId = conversationId, cm_userId = u_id usr,
                       cm_role = (if truthy_bool (u_isGuest usr) then Guest else Admin),
                       cm_joinedAt = None\<rparr> # others in
                bind (blink_conversationMembers_createMany members)
                  (\<lambda>_. bind (lift (loadConversations (u_id usr)))
                    (\<lambda>_. toast group_created))))))))))"

definition handleCreateGroup :: "string \<Rightarrow> string \<Rightarrow> string list \<Rightarrow> state \<Rightarrow> state" where
  "handleCreateGroup name description memberIds s =
     (case user s of
        None \<Rightarrow> s
      | Some usr \<Rightarrow>
          try_catch_toast (handleCreateGroup_body usr name description memberIds) group_failed s)"

section \<open>The chat view\<close>

text \<open>
  \<^verbatim>\<open>ChatView({ user, conversation, onRefresh })\<close>: the two records and the callback are the
  component's props, so they are arguments of its handlers. \<open>App\<close> passes
  \<^verbatim>\<open>() => loadConversations(user.id)\<close> as \<^verbatim>\<open>onRefresh\<close>. The handlers embedded here are
  \<open>loadMessages\<close> and \<open>sendMessage\<close>.
\<close>

definition loadMessages_body :: "Conversation \<Rightarrow> unit io" where
  "loadMessages_body conversation =
     bind (lift (\<lambda>s. s\<lparr>loading := True\<rparr>))
       (\<lambda>_. bind (blink_messages_list (\<lambda>m. m_conversationId m = c_id conversation)
                    (order_asc m_createdAt) None)
         (\<lambda>messagesData.
            bind (traverse
                    (\<lambda>msg. bind (blink_users_list (\<lambda>u. u_id u = m_userId msg) unordered (Some 1))
                              (\<lambda>userData. return (msg\<lparr>m_user := first_row userData\<rparr>)))
                    messagesData)
              (\<lambda>messagesWithUsers. lift (\<lambda>s. s\<lparr>messages := messagesWithUsers\<rparr>))))"

definition loadMessages :: "Conversation \<Rightarrow> state \<Rightarrow> state" where
  "loadMessages conversation s =
     (try_catch_toast (loadMessages_body conversation) load_messages_failed s)\<lparr>loading := False\<rparr>"

definition sendMessage_body :: "User \<Rightarrow> Conversation \<Rightarrow> (state \<Rightarrow> state) \<Rightarrow> string \<Rightarrow> unit io" where
  "sendMessage_body usr conversation onRefresh draft =
     bind (lift (\<lambda>s. s\<lparr>sending := True\<rparr>))
       (\<lambda>_. bind Date_now (\<lambda>t0. bind Math_random (\<lambda>r.
          let messageId = ''msg_'' @ string_of_int t0 @ ''_'' @ r in
          bind Date_now (\<lambda>t1.
            bind (blink_messages_create
                    \<lparr>m_id = messageId, m_conversationId = c_id conversation,
                     m_userId = u_id usr, m_content = Some (trim draft),
                     m_messageType = Text, m_fileUrl = None, m_fileName = None,
                     m_fileSize = None, m_fileType = None, m_createdAt = t1,
                     m_user = None\<rparr>)
              (\<lambda>_. bind Date_now (\<lambda>t2. bind Date_now (\<lambda>t3.
                 bind (blink_conversations_update (c_id conversation)
                         (\<lambda>c. c\<lparr>c_lastMessageAt := t2, c_updatedAt := t3\<rparr>))
                   (\<lambda>_. bind (lift (\<lambda>s. s\<lparr>newMessage := []\<rparr>))
                     (\<lambda>_. bind (lift (loadMessages conversation))
                       (\<lambda>_. lift onRefresh))))))))))"

definition sendMessage :: "User \<Rightarrow> Conversation \<Rightarrow> (state \<Rightarrow> state) \<Rightarrow> state \<Rightarrow> state" where
  "sendMessage usr conversation onRefresh s =
     (if trim (newMessage s) = [] \<or> sending s then s
      else (try_catch_toast (sendMessage_body usr conversation onRefresh (newMessage s))
              send_failed s)\<lparr>sending := False\<rparr>)"

definition chatView_onRefresh :: "User \<Rightarrow> state \<Rightarrow> state" where
  "chatView_onRefresh usr = loadConversations (u_id usr)"

section \<open>Vocabulary of the statements\<close>

text \<open>
  \<open>reliable\<close>: the store answers every call. \<open>reads_only\<close>: a computation that only issues
  \<^verbatim>\<open>list\<close> calls and changes nothing but the call log. \<open>yields m s a\<close>: such a
  computation returns \<open>a\<close> from \<open>s\<close>. The functions below them give, without the calls, what
  the store holds for a user or a conversation.
\<close>

definition reliable :: "state \<Rightarrow> bool" where
  "reliable s \<longleftrightarrow> (\<forall>k. \<not> fails s k)"

definition is_ListCall :: "StoreCall \<Rightarrow> bool" where
  "is_ListCall c = (case c of ListCall _ \<Rightarrow> True | _ \<Rightarrow> False)"

definition reads_only :: "'a io \<Rightarrow> bool" where
  "reads_only m \<longleftrightarrow>
     (\<forall>s. \<exists>r cl. list_all is_ListCall cl \<and> m s = (r, s\<lparr>calls := calls s @ cl\<rparr>))"

definition yields :: "'a io \<Rightarrow> state \<Rightarrow> 'a \<Rightarrow> bool" where
  "yields m s a \<longleftrightarrow>
     (\<exists>cl. list_all is_ListCall cl \<and> m s = (Returned a, s\<lparr>calls := calls s @ cl\<rparr>))"

definition fetch_conversations :: "string \<Rightarrow> Conversation list io" where
  "fetch_conversations userId =
     bind (blink_conversationMembers_list (\<lambda>m. cm_userId m = userId) (order_desc cm_joinedAt) None)
       (\<lambda>membershipData.
          if length membershipData = 0 then return []
          else
            let conversationIds = map cm_conversationId membershipData in
            bind (blink_conversations_list (\<lambda>c. list_ex (\<lambda>i. c_id c = i) conversationIds)
                    (order_desc c_lastMessageAt) None)
              (\<lambda>conversationsData. traverse conversation_with_details conversationsData))"

definition same_db :: "state \<Rightarrow> state \<Rightarrow> bool" where
  "same_db s s' \<longleftrightarrow>
     db_users s' = db_users s \<and> db_conversations s' = db_conversations s \<and>
     db_conversationMembers s' = db_conversationMembers s \<and> db_messages s' = db_messages s \<and>
     db_invites s' = db_invites s"

definition last_message_in :: "state \<Rightarrow> Conversation \<Rightarrow> LastMessage option" where
  "last_message_in s conv =
     (case select (\<lambda>m. m_conversationId m = c_id conv) (order_desc m_createdAt) (Some 1)
             (db_messages s) of
        [] \<Rightarrow> None
      | msg # _ \<Rightarrow>
          Some \<lparr>lm_content = preview_content msg,
                lm_senderName =
                  sender_name (select (\<lambda>u. u_id u = m_userId msg) unordered (Some 1) (db_users s)),
                lm_createdAt = m_createdAt msg\<rparr>)"

definition members_in :: "state \<Rightarrow> Conversation \<Rightarrow> User list option" where
  "members_in s conv =
     (if c_type conv = Group then
        Some (List.map_filter (\<lambda>d. d)
               (map (\<lambda>m. first_row (select (\<lambda>u. u_id u = cm_userId m) unordered (Some 1)
                                      (db_users s)))
                  (select (\<lambda>m. cm_conversationId m = c_id conv) unordered None
                     (db_conversationMembers s))))
      else None)"

definition details_in :: "state \<Rightarrow> Conversation \<Rightarrow> Conversation" where
  "details_in s conv = conv\<lparr>c_members := members_in s conv, c_lastMessage := last_message_in s conv\<rparr>"

definition conversations_for :: "state \<Rightarrow> string \<Rightarrow> Conversation list" where
  "conversations_for s userId =
     (let membershipData = select (\<lambda>m. cm_userId m = userId) (order_desc cm_joinedAt) None
                             (db_conversationMembers s)
      in if length membershipData = 0 then []
         else map (details_in s)
                (select (\<lambda>c. list_ex (\<lambda>i. c_id c = i) (map cm_conversationId membershipData))
                   (order_desc c_lastMessageAt) None (db_conversations s)))"

definition messages_for :: "state \<Rightarrow> Conversation \<Rightarrow> Message list" where
  "messages_for s conversation =
     map (\<lambda>msg. msg\<lparr>m_user := first_row (select (\<lambda>u. u_id u = m_userId msg) unordered (Some 1)
                                           (db_users s))\<rparr>)
       (select (\<lambda>m. m_conversationId m = c_id conversation) (order_asc m_createdAt) None
          (db_messages s))"


text \<open>What the scan of \<open>handleCreatePrivateChat\<close> finds for one membership record, and for
  a list of them.\<close>

definition private_with :: "state \<Rightarrow> string \<Rightarrow> ConversationMember \<Rightarrow> Conversation option" where
  "private_with s targetUserId membership =
     (case find (\<lambda>c. c_id c = cm_conversationId membership \<and> c_type c = Private)
             (db_conversations s) of
        None \<Rightarrow> None
      | Some c0 \<Rightarrow>
          if length (filter (\<lambda>m. cm_conversationId m = c_id c0) (db_conversationMembers s)) = 2
             \<and> list_ex (\<lambda>m. cm_userId m = targetUserId)
                  (filter (\<lambda>m. cm_conversationId m = c_id c0) (db_conversationMembers s))
          then Some c0 else None)"

primrec existing_private :: "state \<Rightarrow> string \<Rightarrow> ConversationMember list \<Rightarrow> Conversation option" where
  "existing_private s targetUserId [] = None"
| "existing_private s targetUserId (m # ms) =
     (case private_with s targetUserId m of
        Some c \<Rightarrow> Some c
      | None \<Rightarrow> existing_private s targetUserId ms)"

text \<open>The reading part of \<open>loadMessages\<close>.\<close>

definition fetch_messages :: "Conversation \<Rightarrow> Message list io" where
  "fetch_messages conversation =
     bind (blink_messages_list (\<lambda>m. m_conversationId m = c_id conversation)
             (order_asc m_createdAt) None)
       (\<lambda>messagesData.
          traverse
            (\<lambda>msg. bind (blink_users_list (\<lambda>u. u_id u = m_userId msg) unordered (Some 1))
                      (\<lambda>userData. return (msg\<lparr>m_user := first_row userData\<rparr>)))
            messagesData)"

text \<open>No conversation of the store carries a \<open>lastMessageAt\<close> later than the clock. The
  handlers write \<open>lastMessageAt\<close> from \<^verbatim>\<open>Date.now()\<close> only, so they keep this. The store is
  shared: a record written by another client, from another clock, need not satisfy it.\<close>

definition time_consistent :: "state \<Rightarrow> bool" where
  "time_consistent s \<longleftrightarrow> (\<forall>c\<in>set (db_conversations s). c_lastMessageAt c \<le> now s)"

text \<open>\<open>tc_step lo m\<close>: started in a time-consistent state whose clock has reached \<open>lo\<close>, the
  computation \<open>m\<close> ends, thrown or not, in a time-consistent state whose clock has not gone
  back.\<close>

definition tc_step :: "int \<Rightarrow> 'a io \<Rightarrow> bool" where
  "tc_step lo m \<longleftrightarrow>
     (\<forall>s r s'. lo \<le> now s \<longrightarrow> time_consistent s \<longrightarrow> m s = (r, s') \<longrightarrow>
        now s \<le> now s' \<and> time_consistent s')"

section \<open>Concrete worlds\<close>

text \<open>
  Inputs on which the statements below are evaluated. \<open>quiet\<close> is a world with an empty
  store that answers every call, a clock at 1000 ms that advances by one millisecond per
  read, and a random source that always gives the same suffix.
\<close>

definition alice :: User where
  "alice = \<lparr>u_id = ''A'', u_email = ''alice@example.org'', u_displayName = ''alice'',
     u_avatarUrl = None, u_status = ''online'', u_lastSeen = None, u_isGuest = Some False,
     u_guestName = None\<rparr>"

definition casey :: User where
  "casey = \<lparr>u_id = ''guest_7'', u_email = ''guest_7@guest.connectify'', u_displayName = ''Casey'',
     u_avatarUrl = None, u_status = ''online'', u_lastSeen = None, u_isGuest = Some True,
     u_guestName = Some ''Casey''\<rparr>"

definition quiet :: state where
  "quiet = \<lparr>db_users = [], db_conversations = [], db_conversationMembers = [],
     db_messages = [], db_invites = [], calls = [], fails = (\<lambda>_. False), now = 1000,
     elapse = (\<lambda>_. 1), random = (\<lambda>_. ''k3x9q''), env_reads = 0, user = None,
     conversations = [], selectedConversation = None, toasts = [], messages = [],
     newMessage = [], loading = False, sending = False\<rparr>"

definition conv_1 :: Conversation where
  "conv_1 = \<lparr>c_id = ''conv_1'', c_type = Group, c_name = Some ''Team'', c_description = None,
     c_avatarUrl = None, c_createdBy = ''B'', c_createdAt = 100, c_updatedAt = 100,
     c_lastMessageAt = 100, c_members = None, c_lastMessage = None\<rparr>"

definition member_row :: "string \<Rightarrow> string \<Rightarrow> string \<Rightarrow> MemberRole \<Rightarrow> ConversationMember" where
  "member_row i c u r =
     \<lparr>cm_id = i, cm_conversationId = c, cm_userId = u, cm_role = r, cm_joinedAt = None\<rparr>"

definition bob :: User where
  "bob = \<lparr>u_id = ''B'', u_email = ''bob@example.org'', u_displayName = ''bob'',
     u_avatarUrl = None, u_status = ''online'', u_lastSeen = None, u_isGuest = None,
     u_guestName = None\<rparr>"

definition conv_2 :: Conversation where
  "conv_2 = \<lparr>c_id = ''conv_2'', c_type = Private, c_name = None, c_description = None,
     c_avatarUrl = None, c_createdBy = ''A'', c_createdAt = 150, c_updatedAt = 250,
     c_lastMessageAt = 250, c_members = None, c_lastMessage = None\<rparr>"

definition message_row ::
  "string \<Rightarrow> string \<Rightarrow> string \<Rightarrow> string option \<Rightarrow> MessageType \<Rightarrow> string option \<Rightarrow> int \<Rightarrow> Message" where
  "message_row i c u txt ty fname at =
     \<lparr>m_id = i, m_conversationId = c, m_userId = u, m_content = txt, m_messageType = ty,
      m_fileUrl = map_option (\<lambda>f. ''https://files.example.org/'' @ f) fname, m_fileName = fname,
      m_fileSize = map_option (\<lambda>f. 2048) fname, m_fileType = None, m_createdAt = at,
      m_user = None\<rparr>"

text \<open>
  \<open>busy\<close>: alice is signed in; she and bob are the members of the group \<open>conv_1\<close> and of the
  private conversation \<open>conv_2\<close>. The latest message of \<open>conv_1\<close> is a file, the only message
  of \<open>conv_2\<close> an image with an empty content.
\<close>

definition busy :: state where
  "busy = quiet\<lparr>
     db_users := [alice, bob],
     db_conversations := [conv_1\<lparr>c_lastMessageAt := 300\<rparr>, conv_2],
     db_conversationMembers :=
       [member_row ''m1'' ''conv_1'' ''B'' Admin, member_row ''m2'' ''conv_1'' ''A'' Member,
        member_row ''m3'' ''conv_2'' ''A'' Member, member_row ''m4'' ''conv_2'' ''B'' Member],
     db_messages :=
       [message_row ''msg_1'' ''conv_1'' ''B'' (Some ''hi'') Text None 200,
        message_row ''msg_2'' ''conv_2'' ''B'' (Some []) Image (Some ''cat.png'') 250,
        message_row ''msg_3'' ''conv_1'' ''B'' None File (Some ''report.pdf'') 300],
     user := Some alice\<rparr>"

definition invite_row ::
  "string \<Rightarrow> string \<Rightarrow> int option \<Rightarrow> int option \<Rightarrow> int \<Rightarrow> bool \<Rightarrow> Invite" where
  "invite_row c code expires cap used active =
     \<lparr>i_id = ''invite_900'', i_conversationId = c, i_createdBy = ''B'', i_inviteCode = code,
      i_expiresAt = expires, i_maxUses = cap, i_currentUses = used, i_isActive = active\<rparr>"

text \<open>
  \<open>invited invite\<close>: the store of \<open>busy\<close> with the one invite \<open>invite\<close>; the guest casey has just
  signed in and is a member of nothing. The next clock reading is 1001.
\<close>

definition invited :: "Invite \<Rightarrow> state" where
  "invited invite = busy\<lparr>db_users := [alice, bob, casey], db_invites := [invite], user := Some casey\<rparr>"

section \<open>The async combinators\<close>

lemma bind_return_left: "bind (return a) f = f a"
  by (rule ext) (simp add: bind_def return_def)

lemma bind_return_right: "bind m return = m"
  by (rule ext) (simp add: bind_def return_def split: prod.splits outcome.splits)

lemma bind_assoc: "bind (bind m f) g = bind m (\<lambda>a. bind (f a) g)"
  by (rule ext) (simp add: bind_def split: prod.splits outcome.splits)

lemma bind_if: "bind (if b then m else n) f = (if b then bind m f else bind n f)"
  by simp

lemma loadConversations_body_fetch:
  "loadConversations_body userId = bind (fetch_conversations userId) setConversations"
  by (simp add: loadConversations_body_def fetch_conversations_def Let_def bind_assoc bind_if
      bind_return_left cong: if_cong)

lemma reads_only_return: "reads_only (return a)"
  unfolding reads_only_def return_def
  by (intro allI exI[of _ "[]"] exI[of _ "Returned a"]) simp

lemma reads_only_bind:
  assumes "reads_only m" and "\<And>a. reads_only (f a)"
  shows "reads_only (bind m f)"
  unfolding reads_only_def
proof
  fix s
  from assms(1) obtain r cl where m: "list_all is_ListCall cl" "m s = (r, s\<lparr>calls := calls s @ cl\<rparr>)"
    unfolding reads_only_def by blast
  show "\<exists>r cl. list_all is_ListCall cl \<and> bind m f s = (r, s\<lparr>calls := calls s @ cl\<rparr>)"
  proof (cases r)
    case Thrown
    with m show ?thesis by (auto simp: bind_def)
  next
    case (Returned a)
    from assms(2)[of a] obtain r2 cl2 where
      f: "list_all is_ListCall cl2"
         "f a (s\<lparr>calls := calls s @ cl\<rparr>) = (r2, s\<lparr>calls := calls s @ cl @ cl2\<rparr>)"
      unfolding reads_only_def by (metis (no_types) append.assoc state.select_convs(6) state.update_convs(6) state.surjective)
    with m Returned show ?thesis
      by (intro exI[of _ r2] exI[of _ "cl @ cl2"]) (simp add: bind_def)
  qed
qed


lemma reads_only_traverse:
  assumes "\<And>x. reads_only (f x)"
  shows "reads_only (traverse f xs)"
  by (induction xs) (simp_all add: reads_only_return reads_only_bind assms)

lemma reads_only_list:
  assumes "\<And>s. effect s = (g s, s)"
  shows "reads_only (store_call (ListCall c) effect)"
  unfolding reads_only_def
proof
  fix s
  show "\<exists>r cl. list_all is_ListCall cl \<and>
          store_call (ListCall c) effect s = (r, s\<lparr>calls := calls s @ cl\<rparr>)"
    by (cases "fails s (length (calls s))")
       (auto simp: store_call_def Let_def assms is_ListCall_def intro!: exI[of _ "[ListCall c]"])
qed

lemma reads_only_users_list: "reads_only (blink_users_list wh ord lim)"
  unfolding blink_users_list_def by (rule reads_only_list) simp

lemma reads_only_conversations_list: "reads_only (blink_conversations_list wh ord lim)"
  unfolding blink_conversations_list_def by (rule reads_only_list) simp

lemma reads_only_conversationMembers_list: "reads_only (blink_conversationMembers_list wh ord lim)"
  unfolding blink_conversationMembers_list_def by (rule reads_only_list) simp

lemma reads_only_messages_list: "reads_only (blink_messages_list wh ord lim)"
  unfolding blink_messages_list_def by (rule reads_only_list) simp

lemma reads_only_invites_list: "reads_only (blink_invites_list wh ord lim)"
  unfolding blink_invites_list_def by (rule reads_only_list) simp

lemmas reads_only_intros =
  reads_only_return reads_only_bind reads_only_traverse reads_only_users_list
  reads_only_conversations_list reads_only_conversationMembers_list reads_only_messages_list
  reads_only_invites_list

lemma reads_only_last_message_of: "reads_only (last_message_of conv)"
  unfolding last_message_of_def
  by (intro reads_only_intros) (simp add: reads_only_intros split: list.split)

lemma reads_only_members_of: "reads_only (members_of conv)"
  unfolding members_of_def
  by (simp add: reads_only_intros)

lemma reads_only_conversation_with_details: "reads_only (conversation_with_details conv)"
  unfolding conversation_with_details_def
  by (intro reads_only_intros reads_only_last_message_of reads_only_members_of)

lemma reads_only_fetch_conversations: "reads_only (fetch_conversations userId)"
  unfolding fetch_conversations_def Let_def
  by (intro reads_only_intros)
     (simp add: reads_only_intros reads_only_conversation_with_details)

lemma reads_only_find_existing_private: "reads_only (find_existing_private targetUserId ms)"
proof (induction ms)
  case Nil
  show ?case by (simp add: reads_only_return)
next
  case (Cons m ms)
  show ?case
    unfolding find_existing_private.simps
    by (intro reads_only_intros) (auto simp: Cons reads_only_intros split: list.split)
qed

text \<open>A load changes the call log, the conversation list and the toasts, nothing else.\<close>

lemma loadConversations_frame:
  "\<exists>cl cs ts. list_all is_ListCall cl \<and>
     loadConversations userId s = s\<lparr>calls := calls s @ cl, conversations := cs, toasts := ts\<rparr>"
proof -
  from reads_only_fetch_conversations[of userId] obtain r cl where
    f: "list_all is_ListCall cl" "fetch_conversations userId s = (r, s\<lparr>calls := calls s @ cl\<rparr>)"
    unfolding reads_only_def by blast
  show ?thesis
  proof (cases r)
    case Thrown
    with f have "loadConversations userId s =
        s\<lparr>calls := calls s @ cl, conversations := conversations s,
          toasts := toasts s @ [load_conversations_failed]\<rparr>"
      by (simp add: loadConversations_def try_catch_toast_def loadConversations_body_fetch bind_def)
    with f(1) show ?thesis by blast
  next
    case (Returned cs)
    with f have "loadConversations userId s =
        s\<lparr>calls := calls s @ cl, conversations := cs, toasts := toasts s\<rparr>"
      by (simp add: loadConversations_def try_catch_toast_def loadConversations_body_fetch bind_def
          setConversations_def)
    with f(1) show ?thesis by blast
  qed
qed


subsection \<open>Runs on a store that answers every call\<close>

lemma reliable_calls [simp]: "reliable (s\<lparr>calls := cl\<rparr>) = reliable s"
  by (simp add: reliable_def)

lemma same_db_calls [simp]: "same_db s (s\<lparr>calls := cl\<rparr>)"
  by (simp add: same_db_def)

lemma same_db_refl [simp]: "same_db s s"
  by (simp add: same_db_def)

lemma same_dbD:
  assumes "same_db s s'"
  shows "db_users s' = db_users s" and "db_conversations s' = db_conversations s"
    and "db_conversationMembers s' = db_conversationMembers s"
    and "db_messages s' = db_messages s" and "db_invites s' = db_invites s"
  using assms by (simp_all add: same_db_def)

lemma last_message_in_cong: "same_db s s' \<Longrightarrow> last_message_in s' = last_message_in s"
  unfolding last_message_in_def by (simp only: same_dbD)

lemma members_in_cong: "same_db s s' \<Longrightarrow> members_in s' = members_in s"
  unfolding members_in_def by (simp only: same_dbD)

lemma details_in_cong: "same_db s s' \<Longrightarrow> details_in s' = details_in s"
  unfolding details_in_def by (simp only: last_message_in_cong members_in_cong)

lemma conversations_for_cong: "same_db s s' \<Longrightarrow> conversations_for s' = conversations_for s"
  unfolding conversations_for_def by (simp only: same_dbD details_in_cong)

lemma messages_for_cong: "same_db s s' \<Longrightarrow> messages_for s' = messages_for s"
  unfolding messages_for_def by (simp only: same_dbD)

lemmas calls_irrelevant [simp] =
  last_message_in_cong[OF same_db_calls] members_in_cong[OF same_db_calls]
  details_in_cong[OF same_db_calls] conversations_for_cong[OF same_db_calls]
  messages_for_cong[OF same_db_calls]

lemma calls_twice:
  "(s\<lparr>calls := calls s @ a\<rparr>)\<lparr>calls := calls (s\<lparr>calls := calls s @ a\<rparr>) @ b\<rparr>
     = s\<lparr>calls := calls s @ (a @ b)\<rparr>"
  by simp

lemma yields_return: "yields (return a) s a"
  unfolding yields_def return_def by (intro exI[of _ "[]"]) simp

lemma yields_bind:
  assumes "yields m s a" and "\<And>cl. yields (f a) (s\<lparr>calls := calls s @ cl\<rparr>) b"
  shows "yields (bind m f) s b"
proof -
  from assms(1) obtain cl where
    m: "list_all is_ListCall cl" "m s = (Returned a, s\<lparr>calls := calls s @ cl\<rparr>)"
    unfolding yields_def by blast
  from assms(2)[of cl] obtain cl2 where
    f: "list_all is_ListCall cl2"
       "f a (s\<lparr>calls := calls s @ cl\<rparr>) = (Returned b, s\<lparr>calls := calls s @ (cl @ cl2)\<rparr>)"
    unfolding yields_def calls_twice by blast
  show ?thesis
    unfolding yields_def
    using m f by (intro exI[of _ "cl @ cl2"]) (simp add: bind_def)
qed

lemma yields_traverse:
  assumes "\<And>x cl. yields (f x) (s\<lparr>calls := calls s @ cl\<rparr>) (g x)"
  shows "yields (traverse f xs) (s\<lparr>calls := calls s @ cl0\<rparr>) (map g xs)"
proof (induction xs arbitrary: cl0)
  case Nil
  show ?case by (simp add: yields_return)
next
  case (Cons x xs)
  show ?case
    unfolding traverse.simps list.map
    by (intro yields_bind[where a = "g x"] yields_bind[where a = "map g xs"] assms)
       (simp_all only: calls_twice Cons yields_return)
qed


lemma yields_list:
  assumes "reliable s" and "\<And>cl. g (s\<lparr>calls := cl\<rparr>) = g s"
  shows "yields (store_call (ListCall c) (\<lambda>s. (g s, s))) s (g s)"
  unfolding yields_def
  using assms
  by (intro exI[of _ "[ListCall c]"]) (simp add: store_call_def Let_def reliable_def is_ListCall_def)


lemma yields_users_list:
  "reliable s \<Longrightarrow> yields (blink_users_list wh ord lim) s (select wh ord lim (db_users s))"
  unfolding blink_users_list_def by (rule yields_list) simp_all

lemma yields_conversations_list:
  "reliable s \<Longrightarrow>
   yields (blink_conversations_list wh ord lim) s (select wh ord lim (db_conversations s))"
  unfolding blink_conversations_list_def by (rule yields_list) simp_all

lemma yields_conversationMembers_list:
  "reliable s \<Longrightarrow>
   yields (blink_conversationMembers_list wh ord lim) s
     (select wh ord lim (db_conversationMembers s))"
  unfolding blink_conversationMembers_list_def by (rule yields_list) simp_all

lemma yields_messages_list:
  "reliable s \<Longrightarrow> yields (blink_messages_list wh ord lim) s (select wh ord lim (db_messages s))"
  unfolding blink_messages_list_def by (rule yields_list) simp_all

lemma yields_invites_list:
  "reliable s \<Longrightarrow> yields (blink_invites_list wh ord lim) s (select wh ord lim (db_invites s))"
  unfolding blink_invites_list_def by (rule yields_list) simp_all

lemma yields_last_message_of:
  assumes "reliable s"
  shows "yields (last_message_of conv) s (last_message_in s conv)"
  unfolding last_message_of_def
proof (rule yields_bind[OF yields_messages_list[OF assms]])
  fix cl
  let ?s = "s\<lparr>calls := calls s @ cl\<rparr>"
  let ?ms = "select (\<lambda>m. m_conversationId m = c_id conv) (order_desc m_createdAt) (Some 1)
               (db_messages s)"
  show "yields (case ?ms of [] \<Rightarrow> return None
          | msg # _ \<Rightarrow>
              bind (blink_users_list (\<lambda>u. u_id u = m_userId msg) unordered (Some 1))
                (\<lambda>sender.
                   return (Some \<lparr>lm_content = preview_content msg,
                                 lm_senderName = sender_name sender,
                                 lm_createdAt = m_createdAt msg\<rparr>))) ?s (last_message_in s conv)"
  proof (cases ?ms)
    case Nil
    then show ?thesis by (simp add: last_message_in_def yields_return)
  next
    case (Cons msg rest)
    have rel: "reliable ?s" using assms by simp
    have lm: "last_message_in s conv =
        Some \<lparr>lm_content = preview_content msg,
              lm_senderName =
                sender_name (select (\<lambda>u. u_id u = m_userId msg) unordered (Some 1) (db_users s)),
              lm_createdAt = m_createdAt msg\<rparr>"
      unfolding last_message_in_def Cons list.case ..
    show ?thesis
      unfolding Cons list.case
      by (rule yields_bind[OF yields_users_list[OF rel]]) (simp add: lm yields_return)
  qed
qed

lemma yields_members_of:
  assumes "reliable s"
  shows "yields (members_of conv) s (members_in s conv)"
proof (cases "c_type conv = Group")
  case False
  then show ?thesis by (simp add: members_of_def members_in_def yields_return)
next
  case True
  have lookup: "yields (bind (blink_users_list (\<lambda>u. u_id u = cm_userId m) unordered (Some 1))
                         (\<lambda>userData. return (first_row userData)))
                  (s\<lparr>calls := calls s @ cl\<rparr>)
                  (first_row (select (\<lambda>u. u_id u = cm_userId m) unordered (Some 1) (db_users s)))"
    for m cl
  proof -
    have rel: "reliable (s\<lparr>calls := calls s @ cl\<rparr>)" using assms by simp
    show ?thesis
      by (rule yields_bind[OF yields_users_list[OF rel]]) (simp add: yields_return)
  qed
  show ?thesis
    unfolding members_of_def members_in_def
    apply (simp only: True refl if_True)
    apply (rule yields_bind[OF yields_conversationMembers_list[OF assms]])
    apply (rule yields_bind[OF yields_traverse[of _ s, OF lookup]])
    apply (rule yields_return)
    done
qed

lemma yields_conversation_with_details:
  assumes "reliable s"
  shows "yields (conversation_with_details conv) s (details_in s conv)"
  unfolding conversation_with_details_def details_in_def
proof (rule yields_bind[OF yields_last_message_of[OF assms]])
  fix cl
  let ?s = "s\<lparr>calls := calls s @ cl\<rparr>"
  have rel: "reliable ?s" using assms by simp
  have m: "members_in ?s conv = members_in s conv"
    by simp
  show "yields (bind (members_of conv)
                 (\<lambda>members. return (conv\<lparr>c_members := members,
                                         c_lastMessage := last_message_in s conv\<rparr>)))
          ?s (conv\<lparr>c_members := members_in s conv, c_lastMessage := last_message_in s conv\<rparr>)"
    using yields_members_of[OF rel, of conv] unfolding m
    by (rule yields_bind) (rule yields_return)
qed

lemma yields_fetch_conversations:
  assumes "reliable s"
  shows "yields (fetch_conversations userId) s (conversations_for s userId)"
  unfolding fetch_conversations_def conversations_for_def Let_def
proof (rule yields_bind[OF yields_conversationMembers_list[OF assms]])
  fix cl
  let ?s = "s\<lparr>calls := calls s @ cl\<rparr>"
  let ?md = "select (\<lambda>m. cm_userId m = userId) (order_desc cm_joinedAt) None
               (db_conversationMembers s)"
  have rel: "reliable ?s" using assms by simp
  have det: "yields (conversation_with_details x) (?s\<lparr>calls := calls ?s @ cl'\<rparr>) (details_in s x)"
    for x cl'
  proof -
    have "reliable (?s\<lparr>calls := calls ?s @ cl'\<rparr>)" using assms by simp
    from yields_conversation_with_details[OF this, of x] show ?thesis
      by simp
  qed
  show "yields (if length ?md = 0 then return []
                else bind (blink_conversations_list
                             (\<lambda>c. list_ex (\<lambda>i. c_id c = i) (map cm_conversationId ?md))
                             (order_desc c_lastMessageAt) None)
                       (\<lambda>conversationsData. traverse conversation_with_details conversationsData))
          ?s
          (if length ?md = 0 then []
           else map (details_in s)
                  (select (\<lambda>c. list_ex (\<lambda>i. c_id c = i) (map cm_conversationId ?md))
                     (order_desc c_lastMessageAt) None (db_conversations s)))"
  proof (cases "length ?md = 0")
    case True
    then show ?thesis by (simp only: refl if_True yields_return)
  next
    case False
    have "yields (bind (blink_conversations_list
                             (\<lambda>c. list_ex (\<lambda>i. c_id c = i) (map cm_conversationId ?md))
                             (order_desc c_lastMessageAt) None)
                       (\<lambda>conversationsData. traverse conversation_with_details conversationsData))
          ?s
          (map (details_in s)
                  (select (\<lambda>c. list_ex (\<lambda>i. c_id c = i) (map cm_conversationId ?md))
                     (order_desc c_lastMessageAt) None (db_conversations ?s)))"
      by (rule yields_bind[OF yields_conversations_list[OF rel]])
         (rule yields_traverse[of _ ?s, OF det])
    with False show ?thesis by simp
  qed
qed

text \<open>With every call answered, a load sets the conversation list to the one the store
  determines.\<close>

lemma loadConversations_ok:
  assumes "reliable s"
  shows "\<exists>cl. list_all is_ListCall cl \<and>
           loadConversations userId s =
             s\<lparr>calls := calls s @ cl, conversations := conversations_for s userId\<rparr>"
proof -
  from yields_fetch_conversations[OF assms, of userId] obtain cl where
    "list_all is_ListCall cl"
    "fetch_conversations userId s = (Returned (conversations_for s userId), s\<lparr>calls := calls s @ cl\<rparr>)"
    unfolding yields_def by blast
  then show ?thesis
    by (intro exI[of _ cl])
       (simp add: loadConversations_def try_catch_toast_def loadConversations_body_fetch bind_def
          setConversations_def)
qed


subsection \<open>Ordered lists and the latest message\<close>

lemma order_desc_set [simp]: "set (order_desc key rows) = set rows"
  by (simp add: order_desc_def)

lemma order_desc_Nil_iff [simp]: "order_desc key rows = [] \<longleftrightarrow> rows = []"
  by (metis order_desc_set set_empty)

lemma order_desc_first:
  assumes "order_desc key rows = r # rest" and "x \<in> set rows"
  shows "key x \<le> key r"
proof -
  let ?ys = "sort_key key (rev rows)"
  from assms(1) have "rev ?ys = r # rest" by (simp add: order_desc_def)
  then have ys: "?ys = rev rest @ [r]" by (metis rev_rev_ident rev.simps(2))
  have "sorted (map key ?ys)" by (rule sorted_sort_key)
  then have "sorted (map key (rev rest) @ [key r])" by (simp add: ys)
  then have "\<forall>k\<in>set (map key (rev rest)). k \<le> key r" by (simp add: sorted_append)
  moreover have "x \<in> set ?ys" using assms(2) by simp
  then have "x = r \<or> x \<in> set rest" by (simp add: ys)
  ultimately show ?thesis by auto
qed

lemma select_first:
  assumes "\<exists>x\<in>set rows. wh x"
  shows "\<exists>r. select wh (order_desc key) (Some 1) rows = [r] \<and> r \<in> set rows \<and> wh r \<and>
             (\<forall>x\<in>set rows. wh x \<longrightarrow> key x \<le> key r)"
proof -
  from assms have "filter wh rows \<noteq> []" by (simp add: filter_empty_conv)
  then obtain r rest where o: "order_desc key (filter wh rows) = r # rest"
    by (cases "order_desc key (filter wh rows)") auto
  then have "r \<in> set (filter wh rows)" by (metis list.set_intros(1) order_desc_set)
  moreover have "\<forall>x\<in>set (filter wh rows). key x \<le> key r"
    using order_desc_first[OF o] by blast
  ultimately show ?thesis by (auto simp: select_def o)
qed

lemma last_message_in_preview:
  assumes "\<exists>m\<in>set (db_messages s). m_conversationId m = c_id conv"
  shows "\<exists>msg lm. last_message_in s conv = Some lm \<and> msg \<in> set (db_messages s) \<and>
           m_conversationId msg = c_id conv \<and>
           (\<forall>m\<in>set (db_messages s). m_conversationId m = c_id conv \<longrightarrow> m_createdAt m \<le> m_createdAt msg) \<and>
           lm_content lm = preview_content msg \<and> lm_createdAt lm = m_createdAt msg"
proof -
  from select_first[OF assms, of m_createdAt] obtain msg where
    sel: "select (\<lambda>m. m_conversationId m = c_id conv) (order_desc m_createdAt) (Some 1) (db_messages s) = [msg]"
    and msg: "msg \<in> set (db_messages s)" "m_conversationId msg = c_id conv"
      "\<forall>m\<in>set (db_messages s). m_conversationId m = c_id conv \<longrightarrow> m_createdAt m \<le> m_createdAt msg"
    by blast
  have "last_message_in s conv =
      Some \<lparr>lm_content = preview_content msg,
            lm_senderName =
              sender_name (select (\<lambda>u. u_id u = m_userId msg) unordered (Some 1) (db_users s)),
            lm_createdAt = m_createdAt msg\<rparr>"
    unfolding last_message_in_def sel list.case ..
  with msg show ?thesis by auto
qed

lemma conversations_for_member:
  assumes "cv \<in> set (conversations_for s userId)"
  shows "\<exists>conv\<in>set (db_conversations s). cv = details_in s conv"
  using assms
  by (auto simp: conversations_for_def Let_def select_def split: if_splits)

lemma details_in_fields [simp]:
  "c_id (details_in s conv) = c_id conv"
  "c_lastMessage (details_in s conv) = last_message_in s conv"
  "c_members (details_in s conv) = members_in s conv"
  by (simp_all add: details_in_def)

lemma last_message_in_id: "c_id conv' = c_id conv \<Longrightarrow> last_message_in s conv' = last_message_in s conv"
  by (simp add: last_message_in_def)


lemma loadConversations_conversations:
  "reliable s \<Longrightarrow> conversations (loadConversations userId s) = conversations_for s userId"
  using loadConversations_ok[of s userId] by auto

lemma conversations_for_contains:
  assumes "m \<in> set (db_conversationMembers s)" and "cm_userId m = userId"
    and "c \<in> set (db_conversations s)" and "c_id c = cm_conversationId m"
  shows "details_in s c \<in> set (conversations_for s userId)"
proof -
  let ?md = "select (\<lambda>m. cm_userId m = userId) (order_desc cm_joinedAt) None
               (db_conversationMembers s)"
  from assms(1,2) have m: "m \<in> set ?md" by (simp add: select_def)
  then have ne: "length ?md \<noteq> 0" by auto
  from m assms(4) have "list_ex (\<lambda>i. c_id c = i) (map cm_conversationId ?md)"
    by (auto simp: list_ex_iff)
  with assms(3) have "c \<in> set (select (\<lambda>c. list_ex (\<lambda>i. c_id c = i) (map cm_conversationId ?md))
                   (order_desc c_lastMessageAt) None (db_conversations s))"
    by (simp add: select_def)
  then show ?thesis
    unfolding conversations_for_def Let_def using ne by (simp only: if_False set_map) (rule imageI)
qed

subsection \<open>handleInviteJoin, case by case\<close>

lemma loadConversations_fields [simp]:
  "db_users (loadConversations userId s) = db_users s"
  "db_conversations (loadConversations userId s) = db_conversations s"
  "db_conversationMembers (loadConversations userId s) = db_conversationMembers s"
  "db_messages (loadConversations userId s) = db_messages s"
  "db_invites (loadConversations userId s) = db_invites s"
  "fails (loadConversations userId s) = fails s"
  "now (loadConversations userId s) = now s"
  "elapse (loadConversations userId s) = elapse s"
  "random (loadConversations userId s) = random s"
  "env_reads (loadConversations userId s) = env_reads s"
  "user (loadConversations userId s) = user s"
  "selectedConversation (loadConversations userId s) = selectedConversation s"
  "messages (loadConversations userId s) = messages s"
  "newMessage (loadConversations userId s) = newMessage s"
  "loading (loadConversations userId s) = loading s"
  "sending (loadConversations userId s) = sending s"
  using loadConversations_frame[of userId s] by auto

lemma loadConversations_toasts [simp]:
  "reliable s \<Longrightarrow> toasts (loadConversations userId s) = toasts s"
  using loadConversations_ok[of s userId] by auto

lemma loadConversations_calls:
  "\<exists>cl. list_all is_ListCall cl \<and> calls (loadConversations userId s) = calls s @ cl"
  using loadConversations_frame[of userId s] by auto

lemma reliable_fails: "reliable s \<Longrightarrow> fails s k = False"
  by (simp add: reliable_def)

lemma reliable_same_fails: "fails s' = fails s \<Longrightarrow> reliable s' = reliable s"
  by (simp add: reliable_def)

lemma select_find_Suc:
  "select wh unordered (Some (Suc 0)) rows = (case find wh rows of None \<Rightarrow> [] | Some r \<Rightarrow> [r])"
  by (induction rows) (simp_all add: select_def unordered_def)

lemma select_find_1:
  "select wh unordered (Some 1) rows = (case find wh rows of None \<Rightarrow> [] | Some r \<Rightarrow> [r])"
  using select_find_Suc[of wh rows] by simp

lemmas select_find = select_find_Suc select_find_1

lemmas run_defs =
  bind_def return_def lift_def toast_def store_call_def Let_def Date_now_def Math_random_def
  setSelectedConversation_def setConversations_def try_catch_toast_def
  blink_users_list_def blink_conversations_list_def blink_conversationMembers_list_def
  blink_messages_list_def blink_invites_list_def blink_conversations_create_def
  blink_conversationMembers_create_def blink_conversationMembers_createMany_def
  blink_messages_create_def blink_conversations_update_def blink_invites_update_def

lemma expired_case:
  assumes "\<not> fails s (length (calls s))"
    and "find (\<lambda>i. i_inviteCode i = code \<and> i_isActive i) (db_invites s) = Some invite"
    and "i_expiresAt invite = Some e" and "e \<noteq> 0" and "e < clock_reading s"
  shows "handleInviteJoin currentUser code s =
           s\<lparr>calls := calls s @ [ListCall Invites], now := clock_reading s,
             env_reads := Suc (env_reads s), toasts := toasts s @ [expired_invite]\<rparr>"
  using assms
  by (simp add: handleInviteJoin_def handleInviteJoin_body_def invite_expired_def run_defs
      select_find clock_reading_def)


lemma reliable_updates [simp]:
  "reliable (s\<lparr>now := t\<rparr>) = reliable s"
  "reliable (s\<lparr>env_reads := n\<rparr>) = reliable s"
  "reliable (s\<lparr>toasts := ts\<rparr>) = reliable s"
  "reliable (s\<lparr>conversations := cs\<rparr>) = reliable s"
  "reliable (s\<lparr>selectedConversation := sc\<rparr>) = reliable s"
  "reliable (s\<lparr>db_conversations := dc\<rparr>) = reliable s"
  "reliable (s\<lparr>db_conversationMembers := dm\<rparr>) = reliable s"
  "reliable (s\<lparr>db_messages := dg\<rparr>) = reliable s"
  "reliable (s\<lparr>db_invites := di\<rparr>) = reliable s"
  "reliable (s\<lparr>messages := ms\<rparr>) = reliable s"
  "reliable (s\<lparr>newMessage := nm\<rparr>) = reliable s"
  "reliable (s\<lparr>loading := b\<rparr>) = reliable s"
  "reliable (s\<lparr>sending := b\<rparr>) = reliable s"
  "reliable (loadConversations userId s) = reliable s"
  by (simp_all add: reliable_def)

lemma same_db_updates [simp]:
  "same_db s (s'\<lparr>calls := cl\<rparr>) = same_db s s'"
  "same_db s (s'\<lparr>now := t\<rparr>) = same_db s s'"
  "same_db s (s'\<lparr>env_reads := n\<rparr>) = same_db s s'"
  "same_db s (s'\<lparr>toasts := ts\<rparr>) = same_db s s'"
  "same_db s (s'\<lparr>conversations := cs\<rparr>) = same_db s s'"
  "same_db s (s'\<lparr>selectedConversation := sc\<rparr>) = same_db s s'"
  "same_db s (s'\<lparr>messages := ms\<rparr>) = same_db s s'"
  "same_db s (s'\<lparr>newMessage := nm\<rparr>) = same_db s s'"
  "same_db s (s'\<lparr>loading := b\<rparr>) = same_db s s'"
  "same_db s (s'\<lparr>sending := b\<rparr>) = same_db s s'"
  "same_db s (loadConversations userId s') = same_db s s'"
  by (simp_all add: same_db_def)

lemma loadConversations_conversations_same:
  "reliable s' \<Longrightarrow> same_db s s' \<Longrightarrow>
   conversations (loadConversations userId s') = conversations_for s userId"
  by (simp add: loadConversations_conversations conversations_for_cong)

lemmas invite_defs =
  handleInviteJoin_def handleInviteJoin_body_def invite_expired_def run_defs
  select_find clock_reading_def select_invited_def add_member_def reliable_fails

lemma invalid_case:
  assumes "\<not> fails s (length (calls s))"
    and "find (\<lambda>i. i_inviteCode i = code \<and> i_isActive i) (db_invites s) = None"
  shows "handleInviteJoin currentUser code s =
           s\<lparr>calls := calls s @ [ListCall Invites], toasts := toasts s @ [invalid_invite]\<rparr>"
  using assms by (simp add: invite_defs)

lemma limit_case:
  assumes "\<not> fails s (length (calls s))"
    and "find (\<lambda>i. i_inviteCode i = code \<and> i_isActive i) (db_invites s) = Some invite"
    and "case i_expiresAt invite of None \<Rightarrow> True | Some e \<Rightarrow> e = 0 \<or> clock_reading s \<le> e"
    and "invite_limit invite"
  shows "toasts (handleInviteJoin currentUser code s) = toasts s @ [invite_limit_reached]"
    and "calls (handleInviteJoin currentUser code s) = calls s @ [ListCall Invites]"
    and "same_db s (handleInviteJoin currentUser code s)"
  using assms by (auto simp: invite_defs split: option.splits)

lemma join_existing:
  assumes "reliable s"
    and "find (\<lambda>i. i_inviteCode i = code \<and> i_isActive i) (db_invites s) = Some invite"
    and "case i_expiresAt invite of None \<Rightarrow> True | Some e \<Rightarrow> e = 0 \<or> clock_reading s \<le> e"
    and "\<not> invite_limit invite"
    and "find (\<lambda>m. cm_conversationId m = i_conversationId invite \<and> cm_userId m = u_id currentUser)
           (db_conversationMembers s) = Some m"
  shows "toasts (handleInviteJoin currentUser code s) = toasts s @ [joined_chat]"
    and "same_db s (handleInviteJoin currentUser code s)"
    and "conversations (handleInviteJoin currentUser code s) = conversations_for s (u_id currentUser)"
    and "selectedConversation (handleInviteJoin currentUser code s) =
           (case find (\<lambda>c. c_id c = i_conversationId invite) (db_conversations s) of
              None \<Rightarrow> selectedConversation s | Some c \<Rightarrow> Some c)"
  using assms
  by (auto simp: invite_defs loadConversations_conversations_same split: option.splits)

lemma join_existing_calls:
  assumes "reliable s"
    and "find (\<lambda>i. i_inviteCode i = code \<and> i_isActive i) (db_invites s) = Some invite"
    and "case i_expiresAt invite of None \<Rightarrow> True | Some e \<Rightarrow> e = 0 \<or> clock_reading s \<le> e"
    and "\<not> invite_limit invite"
    and "find (\<lambda>m. cm_conversationId m = i_conversationId invite \<and> cm_userId m = u_id currentUser)
           (db_conversationMembers s) = Some m"
  shows "\<exists>cl. list_all is_ListCall cl \<and> calls (handleInviteJoin currentUser code s) = calls s @ cl"
proof -
  let ?s1 = "(if i_expiresAt invite = None \<or> i_expiresAt invite = Some 0 then s
             else s\<lparr>now := clock_reading s, env_reads := Suc (env_reads s)\<rparr>)
              \<lparr>calls := calls s @ [ListCall Invites, ListCall ConversationMembers]\<rparr>"
  from loadConversations_calls[of "u_id currentUser" ?s1] obtain cl where
    cl: "list_all is_ListCall cl" "calls (loadConversations (u_id currentUser) ?s1) = calls ?s1 @ cl"
    by blast
  have "calls (handleInviteJoin currentUser code s) =
          calls s @ ([ListCall Invites, ListCall ConversationMembers] @ cl @ [ListCall Conversations])"
    using assms cl(2)
    by (auto simp: invite_defs split: option.splits)
  with cl(1) show ?thesis
    by (intro exI[of _ "[ListCall Invites, ListCall ConversationMembers] @ cl @ [ListCall Conversations]"])
       (simp add: is_ListCall_def)
qed

lemma join_new:
  assumes "reliable s"
    and "find (\<lambda>i. i_inviteCode i = code \<and> i_isActive i) (db_invites s) = Some invite"
    and "case i_expiresAt invite of None \<Rightarrow> True | Some e \<Rightarrow> e = 0 \<or> clock_reading s \<le> e"
    and "\<not> invite_limit invite"
    and "find (\<lambda>m. cm_conversationId m = i_conversationId invite \<and> cm_userId m = u_id currentUser)
           (db_conversationMembers s) = None"
  shows "toasts (handleInviteJoin currentUser code s) = toasts s @ [joined_chat]"
    and "\<exists>ident. db_conversationMembers (handleInviteJoin currentUser code s) =
           db_conversationMembers s @
             [\<lparr>cm_id = ident, cm_conversationId = i_conversationId invite,
               cm_userId = u_id currentUser,
               cm_role = (if truthy_bool (u_isGuest currentUser) then Guest else Member),
               cm_joinedAt = None\<rparr>]"
    and "db_invites (handleInviteJoin currentUser code s) =
           map (\<lambda>i. if i_id i = i_id invite then i\<lparr>i_currentUses := i_currentUses invite + 1\<rparr> else i)
             (db_invites s)"
    and "selectedConversation (handleInviteJoin currentUser code s) =
           (case find (\<lambda>c. c_id c = i_conversationId invite) (db_conversations s) of
              None \<Rightarrow> selectedConversation s | Some c \<Rightarrow> Some c)"
  using assms
  by (auto simp: invite_defs split: option.splits)


lemma find_Some_ex: "\<exists>x\<in>set xs. P x \<Longrightarrow> \<exists>y. find P xs = Some y \<and> y \<in> set xs \<and> P y"
  by (induction xs) auto

subsection \<open>The scan for an existing private conversation\<close>

lemma private_with_calls [simp]:
  "private_with (s\<lparr>calls := cl\<rparr>) = private_with s"
  by (rule ext, rule ext) (simp add: private_with_def split: option.splits)

lemma existing_private_calls [simp]:
  "existing_private (s\<lparr>calls := cl\<rparr>) t ms = existing_private s t ms"
  by (induction ms) (simp_all split: option.splits)

lemma yields_private_with:
  assumes "reliable s"
  shows "yields
     (bind (blink_conversations_list
             (\<lambda>c. c_id c = cm_conversationId membership \<and> c_type c = Private)
             unordered (Some 1))
       (\<lambda>conv.
          case conv of
            [] \<Rightarrow> return None
          | c0 # _ \<Rightarrow>
              bind (blink_conversationMembers_list (\<lambda>m. cm_conversationId m = c_id c0)
                      unordered None)
                (\<lambda>otherMembers.
                   if length otherMembers = 2
                      \<and> list_ex (\<lambda>m. cm_userId m = targetUserId) otherMembers
                   then return (Some c0)
                   else return None)))
     s (private_with s targetUserId membership)"
proof (rule yields_bind[OF yields_conversations_list[OF assms]])
  fix cl
  let ?s = "s\<lparr>calls := calls s @ cl\<rparr>"
  have rel: "reliable ?s" using assms by simp
  show "yields
          (case select (\<lambda>c. c_id c = cm_conversationId membership \<and> c_type c = Private)
                  unordered (Some 1) (db_conversations s) of
             [] \<Rightarrow> return None
           | c0 # _ \<Rightarrow>
               bind (blink_conversationMembers_list (\<lambda>m. cm_conversationId m = c_id c0)
                       unordered None)
                 (\<lambda>otherMembers.
                    if length otherMembers = 2
                       \<and> list_ex (\<lambda>m. cm_userId m = targetUserId) otherMembers
                    then return (Some c0)
                    else return None))
          ?s (private_with s targetUserId membership)"
  proof (cases "find (\<lambda>c. c_id c = cm_conversationId membership \<and> c_type c = Private)
                  (db_conversations s)")
    case None
    then show ?thesis
      by (simp add: select_find private_with_def yields_return)
  next
    case (Some c0)
    have "yields
            (bind (blink_conversationMembers_list (\<lambda>m. cm_conversationId m = c_id c0)
                       unordered None)
                 (\<lambda>otherMembers.
                    if length otherMembers = 2
                       \<and> list_ex (\<lambda>m. cm_userId m = targetUserId) otherMembers
                    then return (Some c0)
                    else return None))
            ?s (private_with s targetUserId membership)"
      by (rule yields_bind[OF yields_conversationMembers_list[OF rel]])
         (simp add: private_with_def Some select_def unordered_def yields_return)
    then show ?thesis
      by (simp add: select_find Some)
  qed
qed

lemma yields_find_existing_private:
  assumes "reliable s"
  shows "yields (find_existing_private targetUserId ms) (s\<lparr>calls := calls s @ cl0\<rparr>)
           (existing_private s targetUserId ms)"
proof (induction ms arbitrary: cl0)
  case Nil
  show ?case by (simp add: yields_return)
next
  case (Cons membership rest)
  let ?s = "s\<lparr>calls := calls s @ cl0\<rparr>"
  have rel: "reliable ?s" using assms by simp
  have split: "find_existing_private targetUserId (membership # rest) =
      bind (bind (blink_conversations_list
             (\<lambda>c. c_id c = cm_conversationId membership \<and> c_type c = Private)
             unordered (Some 1))
       (\<lambda>conv.
          case conv of
            [] \<Rightarrow> return None
          | c0 # _ \<Rightarrow>
              bind (blink_conversationMembers_list (\<lambda>m. cm_conversationId m = c_id c0)
                      unordered None)
                (\<lambda>otherMembers.
                   if length otherMembers = 2
                      \<and> list_ex (\<lambda>m. cm_userId m = targetUserId) otherMembers
                   then return (Some c0)
                   else return None)))
       (\<lambda>found. case found of Some c \<Rightarrow> return (Some c)
                  | None \<Rightarrow> find_existing_private targetUserId rest)"
  proof -
    let ?K = "\<lambda>found. case found of Some c \<Rightarrow> return (Some c)
                       | None \<Rightarrow> find_existing_private targetUserId rest"
    have inner: "bind (case conv of
            [] \<Rightarrow> return None
          | c0 # _ \<Rightarrow>
              bind (blink_conversationMembers_list (\<lambda>m. cm_conversationId m = c_id c0)
                      unordered None)
                (\<lambda>otherMembers.
                   if length otherMembers = 2
                      \<and> list_ex (\<lambda>m. cm_userId m = targetUserId) otherMembers
                   then return (Some c0)
                   else return None)) ?K =
         (case conv of
            [] \<Rightarrow> find_existing_private targetUserId rest
          | c0 # _ \<Rightarrow>
              bind (blink_conversationMembers_list (\<lambda>m. cm_conversationId m = c_id c0)
                      unordered None)
                (\<lambda>otherMembers.
                   if length otherMembers = 2
                      \<and> list_ex (\<lambda>m. cm_userId m = targetUserId) otherMembers
                   then return (Some c0)
                   else find_existing_private targetUserId rest))" for conv
      by (cases conv) (simp_all add: bind_return_left bind_assoc bind_if cong: if_cong)
    show ?thesis
      unfolding find_existing_private.simps bind_assoc inner ..
  qed
  show ?case
    unfolding split
  proof (rule yields_bind[OF yields_private_with[OF rel]])
    fix cl
    show "yields (case private_with ?s targetUserId membership of
                    Some c \<Rightarrow> return (Some c)
                  | None \<Rightarrow> find_existing_private targetUserId rest)
            (?s\<lparr>calls := calls ?s @ cl\<rparr>)
            (existing_private s targetUserId (membership # rest))"
      using Cons[of "cl0 @ cl"]
      by (simp add: yields_return split: option.splits)
  qed
qed

lemma private_with_SomeD:
  assumes "private_with s t m = Some c"
  shows "c \<in> set (db_conversations s)" and "c_id c = cm_conversationId m"
    and "c_type c = Private"
    and "length (filter (\<lambda>x. cm_conversationId x = c_id c) (db_conversationMembers s)) = 2"
    and "\<exists>x\<in>set (db_conversationMembers s). cm_conversationId x = c_id c \<and> cm_userId x = t"
  using assms
  by (auto simp: private_with_def find_Some_iff list_ex_iff split: option.splits if_splits)

lemma private_with_SomeI:
  assumes "c \<in> set (db_conversations s)" and "c_id c = cm_conversationId m"
    and "c_type c = Private"
    and "length (filter (\<lambda>x. cm_conversationId x = c_id c) (db_conversationMembers s)) = 2"
    and "\<exists>x\<in>set (db_conversationMembers s). cm_conversationId x = c_id c \<and> cm_userId x = t"
  shows "\<exists>c'. private_with s t m = Some c'"
proof -
  from assms(1-3) have "\<exists>c\<in>set (db_conversations s). c_id c = cm_conversationId m \<and> c_type c = Private"
    by blast
  from find_Some_ex[OF this] obtain c0 where
    c0: "find (\<lambda>c. c_id c = cm_conversationId m \<and> c_type c = Private) (db_conversations s) = Some c0"
      "c_id c0 = cm_conversationId m"
    by blast
  then have "c_id c0 = c_id c" using assms(2) by simp
  with assms(4,5) show ?thesis
    by (auto simp: private_with_def c0(1) list_ex_iff)
qed

lemma existing_private_Some:
  assumes "m \<in> set ms" and "private_with s t m = Some c"
  shows "\<exists>m'\<in>set ms. \<exists>c'. existing_private s t ms = Some c' \<and> private_with s t m' = Some c'"
  using assms by (induction ms) (auto split: option.splits)


lemma handleCreatePrivateChat_existing:
  assumes "reliable s" and "user s = Some usr"
    and "existing_private s targetUserId
           (filter (\<lambda>m. cm_userId m = u_id usr) (db_conversationMembers s)) = Some c"
  shows "\<exists>cl. list_all is_ListCall cl \<and>
           handleCreatePrivateChat targetUserId s =
             s\<lparr>calls := calls s @ cl, selectedConversation := Some c\<rparr>"
proof -
  have "yields (bind (blink_conversationMembers_list (\<lambda>m. cm_userId m = u_id usr) unordered None)
                  (find_existing_private targetUserId))
          s (Some c)"
  proof (rule yields_bind[OF yields_conversationMembers_list[OF assms(1)]])
    fix cl
    show "yields (find_existing_private targetUserId
                    (select (\<lambda>m. cm_userId m = u_id usr) unordered None (db_conversationMembers s)))
            (s\<lparr>calls := calls s @ cl\<rparr>) (Some c)"
      using yields_find_existing_private[OF assms(1), of targetUserId
          "filter (\<lambda>m. cm_userId m = u_id usr) (db_conversationMembers s)" cl]
      by (simp add: assms(3) select_def unordered_def)
  qed
  then obtain cl where cl: "list_all is_ListCall cl"
    "bind (blink_conversationMembers_list (\<lambda>m. cm_userId m = u_id usr) unordered None)
       (find_existing_private targetUserId) s = (Returned (Some c), s\<lparr>calls := calls s @ cl\<rparr>)"
    unfolding yields_def by blast
  have body: "handleCreatePrivateChat_body usr targetUserId =
      bind (bind (blink_conversationMembers_list (\<lambda>m. cm_userId m = u_id usr) unordered None)
              (find_existing_private targetUserId))
        (\<lambda>found. case found of
                        Some c0 \<Rightarrow> setSelectedConversation c0
                      | None \<Rightarrow> create_private usr targetUserId)"
    unfolding handleCreatePrivateChat_body_def bind_assoc ..
  have "handleCreatePrivateChat targetUserId s =
          s\<lparr>calls := calls s @ cl, selectedConversation := Some c\<rparr>"
    unfolding handleCreatePrivateChat_def assms(2) option.case try_catch_toast_def body
    by (subst bind_def) (simp add: cl(2) setSelectedConversation_def)
  with cl(1) show ?thesis by blast
qed

subsection \<open>loadMessages and sendMessage\<close>

lemma order_asc_set [simp]: "set (order_asc key rows) = set rows"
  by (simp add: order_asc_def)


lemma loadMessages_body_fetch:
  "loadMessages_body conversation s =
     bind (fetch_messages conversation) (\<lambda>ms. lift (\<lambda>s. s\<lparr>messages := ms\<rparr>)) (s\<lparr>loading := True\<rparr>)"
  unfolding loadMessages_body_def fetch_messages_def bind_assoc
  by (simp add: bind_def lift_def)






subsection \<open>The handlers keep the store time-consistent\<close>

lemma tc_step_return: "tc_step lo (return a)"
  by (simp add: tc_step_def return_def)

lemma tc_step_bind:
  assumes "tc_step lo m" and "\<And>a. tc_step lo (f a)"
  shows "tc_step lo (bind m f)"
  unfolding tc_step_def
proof (intro allI impI)
  fix s r s'
  assume lo: "lo \<le> now s" and tc: "time_consistent s" and run: "bind m f s = (r, s')"
  obtain r1 s1 where m: "m s = (r1, s1)" by (cases "m s")
  with assms(1) lo tc have s1: "now s \<le> now s1" "time_consistent s1"
    unfolding tc_step_def by blast+
  show "now s \<le> now s' \<and> time_consistent s'"
  proof (cases r1)
    case Thrown
    with m run s1 show ?thesis by (simp add: bind_def)
  next
    case (Returned a)
    with m run have "f a s1 = (r, s')" by (simp add: bind_def)
    with assms(2)[of a] s1 lo have "now s1 \<le> now s' \<and> time_consistent s'"
      unfolding tc_step_def by (meson order_trans)
    with s1 show ?thesis by simp
  qed
qed

lemma tc_step_Date_now:
  assumes "\<And>t. lo \<le> t \<Longrightarrow> tc_step t (f t)"
  shows "tc_step lo (bind Date_now f)"
  unfolding tc_step_def
proof (intro allI impI)
  fix s r s'
  assume lo: "lo \<le> now s" and tc: "time_consistent s" and run: "bind Date_now f s = (r, s')"
  let ?t = "clock_reading s"
  let ?s1 = "s\<lparr>now := ?t, env_reads := Suc (env_reads s)\<rparr>"
  have t: "now s \<le> ?t" by (simp add: clock_reading_def)
  from run have f: "f ?t ?s1 = (r, s')" by (simp add: bind_def Date_now_def Let_def)
  have "time_consistent ?s1" using tc t by (auto simp: time_consistent_def)
  moreover have "?t \<le> now ?s1" by simp
  moreover have "lo \<le> ?t" using lo t by simp
  ultimately have "now ?s1 \<le> now s' \<and> time_consistent s'"
    using assms[of ?t] f unfolding tc_step_def by blast
  with t show "now s \<le> now s' \<and> time_consistent s'" by simp
qed

lemma tc_step_Math_random:
  assumes "\<And>r. tc_step lo (f r)"
  shows "tc_step lo (bind Math_random f)"
  unfolding tc_step_def
proof (intro allI impI)
  fix s r s'
  assume lo: "lo \<le> now s" and tc: "time_consistent s" and run: "bind Math_random f s = (r, s')"
  let ?s1 = "s\<lparr>env_reads := Suc (env_reads s)\<rparr>"
  from run have "f (random s (env_reads s)) ?s1 = (r, s')"
    by (simp add: bind_def Math_random_def)
  moreover have "time_consistent ?s1" "lo \<le> now ?s1"
    using tc lo by (simp_all add: time_consistent_def)
  ultimately have "now ?s1 \<le> now s' \<and> time_consistent s'"
    using assms unfolding tc_step_def by blast
  then show "now s \<le> now s' \<and> time_consistent s'" by simp
qed

lemma tc_step_store_call:
  assumes "\<And>s a s'. lo \<le> now s \<Longrightarrow> time_consistent s \<Longrightarrow> effect s = (a, s') \<Longrightarrow>
             now s \<le> now s' \<and> time_consistent s'"
  shows "tc_step lo (store_call c effect)"
  unfolding tc_step_def
proof (intro allI impI)
  fix s r s'
  assume lo: "lo \<le> now s" and tc: "time_consistent s" and run: "store_call c effect s = (r, s')"
  let ?s1 = "s\<lparr>calls := calls s @ [c]\<rparr>"
  have s1: "lo \<le> now ?s1" "time_consistent ?s1" using lo tc by (simp_all add: time_consistent_def)
  show "now s \<le> now s' \<and> time_consistent s'"
  proof (cases "fails s (length (calls s))")
    case True
    with run s1 show ?thesis by (auto simp: store_call_def Let_def)
  next
    case False
    obtain a s2 where e: "effect ?s1 = (a, s2)" by (cases "effect ?s1")
    with False run have "s' = s2" by (simp add: store_call_def Let_def)
    with assms[OF s1 e] show ?thesis by simp
  qed
qed

lemma tc_step_lists:
  "tc_step lo (blink_users_list wu ou lu)"
  "tc_step lo (blink_conversations_list wc oc lc)"
  "tc_step lo (blink_conversationMembers_list wm om lm)"
  "tc_step lo (blink_messages_list wg og lg)"
  "tc_step lo (blink_invites_list wi oi li)"
  unfolding blink_users_list_def blink_conversations_list_def blink_conversationMembers_list_def
    blink_messages_list_def blink_invites_list_def
  by (rule tc_step_store_call, simp)+

lemma tc_step_other_writes:
  "tc_step lo (blink_conversationMembers_create row)"
  "tc_step lo (blink_conversationMembers_createMany rows)"
  "tc_step lo (blink_messages_create msg)"
  "tc_step lo (blink_invites_update ident patch)"
  unfolding blink_conversationMembers_create_def blink_conversationMembers_createMany_def
    blink_messages_create_def blink_invites_update_def
  by (rule tc_step_store_call, auto simp: time_consistent_def)+

lemma tc_step_conversations_create:
  "c_lastMessageAt row \<le> lo \<Longrightarrow> tc_step lo (blink_conversations_create row)"
  unfolding blink_conversations_create_def
  by (rule tc_step_store_call) (auto simp: time_consistent_def)

lemma tc_step_conversations_update:
  assumes "\<And>c. c_lastMessageAt (patch c) \<le> lo"
  shows "tc_step lo (blink_conversations_update ident patch)"
  unfolding blink_conversations_update_def
  by (rule tc_step_store_call) (auto simp: time_consistent_def intro: order_trans[OF assms])

lemma tc_step_lift:
  assumes "\<And>s. now (f s) = now s" and "\<And>s. db_conversations (f s) = db_conversations s"
  shows "tc_step lo (lift f)"
  using assms by (simp add: tc_step_def lift_def time_consistent_def)

lemma tc_step_mono: "tc_step lo m \<Longrightarrow> lo \<le> lo' \<Longrightarrow> tc_step lo' m"
  unfolding tc_step_def by (meson order_trans)

lemma tc_step_traverse:
  assumes "\<And>x. tc_step lo (f x)"
  shows "tc_step lo (traverse f xs)"
  by (induction xs) (simp_all add: tc_step_return tc_step_bind assms)

lemma tc_step_setters:
  "tc_step lo (setConversations cs)"
  "tc_step lo (setSelectedConversation c)"
  "tc_step lo (toast t)"
  by (simp_all add: tc_step_def setConversations_def setSelectedConversation_def toast_def
      time_consistent_def)

lemma tc_try_catch_toast:
  assumes "tc_step (now s) body" and "time_consistent s"
  shows "time_consistent (try_catch_toast body t s)" and "now s \<le> now (try_catch_toast body t s)"
proof -
  obtain r s1 where b: "body s = (r, s1)" by (cases "body s")
  with assms have "now s \<le> now s1 \<and> time_consistent s1"
    unfolding tc_step_def by blast
  with b show "time_consistent (try_catch_toast body t s)"
    and "now s \<le> now (try_catch_toast body t s)"
    by (cases r; simp add: try_catch_toast_def time_consistent_def)+
qed


lemma tc_step_reads_only:
  assumes "reads_only m"
  shows "tc_step lo m"
  unfolding tc_step_def
proof (intro allI impI)
  fix s r s'
  assume "time_consistent s" and run: "m s = (r, s')"
  from assms obtain r0 cl where "m s = (r0, s\<lparr>calls := calls s @ cl\<rparr>)"
    unfolding reads_only_def by blast
  with run have "s' = s\<lparr>calls := calls s @ cl\<rparr>" by simp
  with \<open>time_consistent s\<close> show "now s \<le> now s' \<and> time_consistent s'"
    by (simp add: time_consistent_def)
qed

lemma tc_step_loadConversations: "tc_step lo (lift (loadConversations userId))"
  by (rule tc_step_lift) simp_all

lemmas tc_intros =
  tc_step_return tc_step_bind tc_step_lists tc_step_other_writes tc_step_setters
  tc_step_loadConversations tc_step_Date_now tc_step_Math_random

lemma time_consistent_quiet: "time_consistent quiet"
  by (simp add: time_consistent_def quiet_def)

lemma time_consistent_loadConversations:
  "time_consistent s \<Longrightarrow> time_consistent (loadConversations userId s)"
  by (simp add: time_consistent_def)

lemma tc_step_add_member: "tc_step lo (add_member currentUser invite)"
  unfolding add_member_def
  by (intro tc_step_Date_now tc_step_Math_random tc_step_bind tc_step_other_writes)

lemma tc_step_handleInviteJoin_body: "tc_step lo (handleInviteJoin_body currentUser code)"
  unfolding handleInviteJoin_body_def invite_expired_def select_invited_def
  by (intro tc_step_bind tc_step_lists)
     (auto intro!: tc_intros tc_step_add_member split: list.splits option.splits)

lemma time_consistent_handleInviteJoin:
  "time_consistent s \<Longrightarrow> time_consistent (handleInviteJoin currentUser code s)"
  unfolding handleInviteJoin_def
  by (rule tc_try_catch_toast(1)[OF tc_step_handleInviteJoin_body])


lemma reads_only_fetch_messages: "reads_only (fetch_messages conversation)"
  unfolding fetch_messages_def
  by (intro reads_only_intros)

lemma loadMessages_frame:
  "\<exists>cl ms ts. list_all is_ListCall cl \<and>
     loadMessages conversation s =
       s\<lparr>calls := calls s @ cl, toasts := ts, messages := ms, loading := False\<rparr>"
proof -
  let ?s = "s\<lparr>loading := True\<rparr>"
  from reads_only_fetch_messages[of conversation] obtain r cl where
    f: "list_all is_ListCall cl" "fetch_messages conversation ?s = (r, ?s\<lparr>calls := calls ?s @ cl\<rparr>)"
    unfolding reads_only_def by blast
  show ?thesis
  proof (cases r)
    case Thrown
    with f have "loadMessages conversation s =
        s\<lparr>calls := calls s @ cl, toasts := toasts s @ [load_messages_failed],
          messages := messages s, loading := False\<rparr>"
      by (simp add: loadMessages_def try_catch_toast_def loadMessages_body_fetch bind_def)
    with f(1) show ?thesis by blast
  next
    case (Returned ms)
    with f have "loadMessages conversation s =
        s\<lparr>calls := calls s @ cl, toasts := toasts s, messages := ms, loading := False\<rparr>"
      by (simp add: loadMessages_def try_catch_toast_def loadMessages_body_fetch bind_def lift_def)
    with f(1) show ?thesis by blast
  qed
qed

lemma loadMessages_now [simp]:
  "now (loadMessages conversation s) = now s"
  "db_conversations (loadMessages conversation s) = db_conversations s"
  using loadMessages_frame[of conversation s] by auto

lemma time_consistent_loadMessages:
  "time_consistent s \<Longrightarrow> time_consistent (loadMessages conversation s)"
  by (simp add: time_consistent_def)

lemma tc_step_other_members: "tc_step lo (other_members conversationId index memberIds)"
proof (induction memberIds arbitrary: lo index)
  case Nil
  show ?case by (simp add: tc_step_return)
next
  case (Cons memberId rest)
  show ?case
    unfolding other_members.simps
    by (intro tc_step_Date_now tc_step_bind Cons tc_step_return)
qed

lemma tc_step_create_private: "tc_step lo (create_private usr targetUserId)"
  unfolding create_private_def Let_def
  by (intro tc_step_Date_now tc_step_Math_random tc_step_bind tc_step_other_writes
        tc_step_conversations_create tc_step_loadConversations tc_step_setters)
     simp

lemma tc_step_handleCreatePrivateChat_body:
  "tc_step lo (handleCreatePrivateChat_body usr targetUserId)"
  unfolding handleCreatePrivateChat_body_def
  by (intro tc_step_bind tc_step_lists tc_step_reads_only[OF reads_only_find_existing_private])
     (auto intro: tc_step_setters tc_step_create_private split: option.splits)

lemma time_consistent_handleCreatePrivateChat:
  "time_consistent s \<Longrightarrow> time_consistent (handleCreatePrivateChat targetUserId s)"
  unfolding handleCreatePrivateChat_def
  by (auto intro: tc_try_catch_toast(1)[OF tc_step_handleCreatePrivateChat_body]
      split: option.splits)

lemma tc_step_handleCreateGroup_body:
  "tc_step lo (handleCreateGroup_body usr name description memberIds)"
  unfolding handleCreateGroup_body_def Let_def
  by (intro tc_step_Date_now tc_step_Math_random tc_step_bind tc_step_other_writes
        tc_step_conversations_create tc_step_loadConversations tc_step_setters
        tc_step_other_members)
     simp

lemma time_consistent_handleCreateGroup:
  "time_consistent s \<Longrightarrow> time_consistent (handleCreateGroup name description memberIds s)"
  unfolding handleCreateGroup_def
  by (auto intro: tc_try_catch_toast(1)[OF tc_step_handleCreateGroup_body]
      split: option.splits)

lemma tc_step_sendMessage_body:
  "tc_step lo (sendMessage_body usr conversation (chatView_onRefresh usr) draft)"
  unfolding sendMessage_body_def Let_def chatView_onRefresh_def
  by (intro tc_step_Date_now tc_step_Math_random tc_step_bind tc_step_other_writes
        tc_step_conversations_update tc_step_loadConversations tc_step_lift)
     simp_all

lemma time_consistent_sendMessage:
  assumes "time_consistent s"
  shows "time_consistent (sendMessage usr conversation (chatView_onRefresh usr) s)"
proof (cases "trim (newMessage s) = [] \<or> sending s")
  case True
  with assms show ?thesis by (simp add: sendMessage_def)
next
  case False
  from tc_try_catch_toast(1)[OF tc_step_sendMessage_body assms]
  have "time_consistent (try_catch_toast
          (sendMessage_body usr conversation (chatView_onRefresh usr) (newMessage s)) send_failed s)" .
  with False show ?thesis
    by (simp add: sendMessage_def time_consistent_def)
qed

text \<open>In a time-consistent store no conversation is stamped later than the next reading of
  the clock.\<close>

lemma time_consistent_stamped_before:
  assumes "time_consistent s"
  shows "\<forall>c\<in>set (db_conversations s). c_lastMessageAt c \<le> clock_reading s"
  using assms by (fastforce simp: time_consistent_def clock_reading_def)


subsection \<open>Blank input\<close>

lemma prefix_free:
  "list_all (\<lambda>w. list_all (\<lambda>w'. w' \<noteq> [] \<and> (take (length w') w = w' \<longrightarrow> w' = w)) whitespace) whitespace"
  by (simp add: whitespace_def)


lemma whitespace_prefix_free:
  assumes "w \<in> set whitespace" and "w' \<in> set whitespace"
  shows "w' \<noteq> []" and "take (length w') w = w' \<Longrightarrow> w' = w"
  using prefix_free assms by (auto simp: list_all_iff)

lemma strip_blank:
  assumes "set ws \<subseteq> set whitespace"
  shows "strip whitespace (concat ws) = []"
  using assms
proof (induction ws)
  case Nil
  have "find (\<lambda>w. w \<noteq> [] \<and> take (length w) [] = w) whitespace = None"
    by (auto simp: find_None_iff)
  then show ?case by (subst strip.simps) simp
next
  case (Cons w ws)
  let ?s = "w @ concat ws"
  let ?P = "\<lambda>u. u \<noteq> [] \<and> take (length u) ?s = u"
  from Cons.prems have w: "w \<in> set whitespace" by simp
  then have "?P w" using whitespace_prefix_free(1)[OF w w] by simp
  with w have "find ?P whitespace \<noteq> None" by (auto simp: find_None_iff)
  then obtain w' where f: "find ?P whitespace = Some w'" by auto
  then have w': "w' \<in> set whitespace" "take (length w') ?s = w'"
    by (auto simp: find_Some_iff in_set_conv_nth)
  have "w' = w"
  proof (cases "length w' \<le> length w")
    case True
    with w'(2) have "take (length w') w = w'" by simp
    then show ?thesis by (rule whitespace_prefix_free(2)[OF w w'(1)])
  next
    case False
    then have "take (length w) w' = w"
      using arg_cong[OF w'(2), of "take (length w)"] by (simp add: min_def)
    then show ?thesis using whitespace_prefix_free(2)[OF w'(1) w] by simp
  qed
  with f have "strip whitespace ?s = strip whitespace (concat ws)"
    by (subst strip.simps) simp
  with Cons show ?case by simp
qed

lemma trim_blank:
  assumes "set ws \<subseteq> set whitespace"
  shows "trim (concat ws) = []"
proof -
  have "find (\<lambda>w. w \<noteq> [] \<and> take (length w) [] = w) (map rev whitespace) = None"
    by (auto simp: find_None_iff)
  then have "strip (map rev whitespace) [] = []" by (subst strip.simps) simp
  then show ?thesis by (simp add: trim_def strip_blank[OF assms])
qed

section \<open>The claims\<close>

text \<open>
  C1. The signed-in user A and the target B already share a private conversation: A has a
  membership record of a conversation of type \<open>private\<close> that has exactly two membership
  records, one of them B's. With the store answering every call, \<open>handleCreatePrivateChat\<close>
  then selects a conversation of the store with exactly these properties and changes
  nothing else but the call log, to which it adds list calls only: no conversation record
  and no membership record is created.
\<close>

theorem existing_private_chat_selected:
  assumes "reliable s" and "user s = Some usr"
    and "\<exists>m\<in>set (db_conversationMembers s). cm_userId m = u_id usr \<and>
           (\<exists>c\<in>set (db_conversations s). c_id c = cm_conversationId m \<and> c_type c = Private \<and>
              length (filter (\<lambda>x. cm_conversationId x = c_id c) (db_conversationMembers s)) = 2 \<and>
              (\<exists>x\<in>set (db_conversationMembers s).
                 cm_conversationId x = c_id c \<and> cm_userId x = targetUserId))"
  shows "\<exists>c cl. handleCreatePrivateChat targetUserId s =
                  s\<lparr>calls := calls s @ cl, selectedConversation := Some c\<rparr> \<and>
                list_all is_ListCall cl \<and>
                c \<in> set (db_conversations s) \<and> c_type c = Private \<and>
                length (filter (\<lambda>x. cm_conversationId x = c_id c) (db_conversationMembers s)) = 2 \<and>
                (\<exists>x\<in>set (db_conversationMembers s).
                   cm_conversationId x = c_id c \<and> cm_userId x = u_id usr) \<and>
                (\<exists>x\<in>set (db_conversationMembers s).
                   cm_conversationId x = c_id c \<and> cm_userId x = targetUserId)"
proof -
  let ?mine = "filter (\<lambda>m. cm_userId m = u_id usr) (db_conversationMembers s)"
  from assms(3) obtain m c where m: "m \<in> set (db_conversationMembers s)" "cm_userId m = u_id usr"
    and c: "c \<in> set (db_conversations s)" "c_id c = cm_conversationId m" "c_type c = Private"
      "length (filter (\<lambda>x. cm_conversationId x = c_id c) (db_conversationMembers s)) = 2"
      "\<exists>x\<in>set (db_conversationMembers s). cm_conversationId x = c_id c \<and> cm_userId x = targetUserId"
    by blast
  from private_with_SomeI[OF c] obtain c1 where "private_with s targetUserId m = Some c1"
    by blast
  moreover have "m \<in> set ?mine" using m by simp
  ultimately obtain m' c' where m': "m' \<in> set ?mine"
    and found: "existing_private s targetUserId ?mine = Some c'"
    and c': "private_with s targetUserId m' = Some c'"
    using existing_private_Some by blast
  from handleCreatePrivateChat_existing[OF assms(1,2) found] obtain cl where
    run: "list_all is_ListCall cl"
      "handleCreatePrivateChat targetUserId s =
         s\<lparr>calls := calls s @ cl, selectedConversation := Some c'\<rparr>"
    by blast
  note d = private_with_SomeD[OF c']
  from m' d(2) have "\<exists>x\<in>set (db_conversationMembers s).
      cm_conversationId x = c_id c' \<and> cm_userId x = u_id usr"
    by auto
  with run d show ?thesis by blast
qed

theorem existing_private_chat_selected_witness:
  "reliable busy \<and> user busy = Some alice \<and>
   (\<exists>m\<in>set (db_conversationMembers busy). cm_userId m = u_id alice \<and>
      (\<exists>c\<in>set (db_conversations busy). c_id c = cm_conversationId m \<and> c_type c = Private \<and>
         length (filter (\<lambda>x. cm_conversationId x = c_id c) (db_conversationMembers busy)) = 2 \<and>
         (\<exists>x\<in>set (db_conversationMembers busy).
            cm_conversationId x = c_id c \<and> cm_userId x = ''B''))) \<and>
   selectedConversation (handleCreatePrivateChat ''B'' busy) = Some conv_2 \<and>
   db_conversations (handleCreatePrivateChat ''B'' busy) = db_conversations busy \<and>
   db_conversationMembers (handleCreatePrivateChat ''B'' busy) = db_conversationMembers busy \<and>
   list_all is_ListCall (calls (handleCreatePrivateChat ''B'' busy))"
proof -
  have 1: "reliable busy" and 2: "user busy = Some alice"
    by (simp_all add: reliable_def busy_def quiet_def)
  have 3: "\<exists>m\<in>set (db_conversationMembers busy). cm_userId m = u_id alice \<and>
      (\<exists>c\<in>set (db_conversations busy). c_id c = cm_conversationId m \<and> c_type c = Private \<and>
         length (filter (\<lambda>x. cm_conversationId x = c_id c) (db_conversationMembers busy)) = 2 \<and>
         (\<exists>x\<in>set (db_conversationMembers busy).
            cm_conversationId x = c_id c \<and> cm_userId x = ''B''))"
    by (simp add: busy_def quiet_def member_row_def alice_def conv_1_def conv_2_def)
  from existing_private_chat_selected[OF 1 2 3] obtain c cl where
    run: "handleCreatePrivateChat ''B'' busy =
            busy\<lparr>calls := calls busy @ cl, selectedConversation := Some c\<rparr>"
    and cl: "list_all is_ListCall cl"
    and c: "c \<in> set (db_conversations busy)" "c_type c = Private"
    by blast
  from c have "c = conv_2"
    by (auto simp: busy_def quiet_def conv_1_def conv_2_def)
  with run cl have 4: "selectedConversation (handleCreatePrivateChat ''B'' busy) = Some conv_2"
    and 5: "db_conversations (handleCreatePrivateChat ''B'' busy) = db_conversations busy"
    and 6: "db_conversationMembers (handleCreatePrivateChat ''B'' busy) = db_conversationMembers busy"
    and 7: "list_all is_ListCall (calls (handleCreatePrivateChat ''B'' busy))"
    by (simp_all add: busy_def quiet_def)
  show ?thesis
    using 1 2 3 4 5 6 7 by (intro conjI) assumption+
qed

text \<open>
  C2, as amended. Let the lookup of active invites return the invite for the code, and let
  its \<open>expiresAt\<close> be set, different from 0 and earlier than the clock reading of the
  redemption. Then \<open>handleInviteJoin\<close> ends with the toast \<open>Expired Invite\<close>; the store call
  it issued is the list of invites; no membership record is written and no invite is
  updated. (The claim as stated fails twice: an \<open>expiresAt\<close> of 0 is falsy, so the invite is
  treated as not expiring and the user joins; an invite whose \<open>isActive\<close> is false is not
  returned by the lookup, and the flow ends with the toast \<open>Invalid Invite\<close>.)
\<close>

theorem expired_invite_rejected:
  assumes "\<not> fails s (length (calls s))"
    and "find (\<lambda>i. i_inviteCode i = code \<and> i_isActive i) (db_invites s) = Some invite"
    and "i_expiresAt invite = Some e" and "e \<noteq> 0" and "e < clock_reading s"
  shows "handleInviteJoin currentUser code s =
           s\<lparr>calls := calls s @ [ListCall Invites], now := clock_reading s,
             env_reads := Suc (env_reads s), toasts := toasts s @ [expired_invite]\<rparr>"
  using assms by (rule expired_case)

theorem expired_invite_rejected_witness:
  "\<not> fails (invited (invite_row ''conv_1'' ''abc123'' (Some 500) (Some 10) 0 True))
       (length (calls (invited (invite_row ''conv_1'' ''abc123'' (Some 500) (Some 10) 0 True)))) \<and>
   find (\<lambda>i. i_inviteCode i = ''abc123'' \<and> i_isActive i)
     (db_invites (invited (invite_row ''conv_1'' ''abc123'' (Some 500) (Some 10) 0 True)))
     = Some (invite_row ''conv_1'' ''abc123'' (Some 500) (Some 10) 0 True) \<and>
   i_expiresAt (invite_row ''conv_1'' ''abc123'' (Some 500) (Some 10) 0 True) = Some 500 \<and>
   (500 :: int) \<noteq> 0 \<and>
   500 < clock_reading (invited (invite_row ''conv_1'' ''abc123'' (Some 500) (Some 10) 0 True)) \<and>
   handleInviteJoin casey ''abc123''
     (invited (invite_row ''conv_1'' ''abc123'' (Some 500) (Some 10) 0 True)) =
   (invited (invite_row ''conv_1'' ''abc123'' (Some 500) (Some 10) 0 True))
     \<lparr>calls := [ListCall Invites], now := 1001, env_reads := Suc 0, toasts := [expired_invite]\<rparr>"
proof -
  let ?inv = "invite_row ''conv_1'' ''abc123'' (Some 500) (Some 10) 0 True"
  have 1: "\<not> fails (invited ?inv) (length (calls (invited ?inv)))"
    by (simp add: invited_def busy_def quiet_def)
  have 2: "find (\<lambda>i. i_inviteCode i = ''abc123'' \<and> i_isActive i) (db_invites (invited ?inv)) = Some ?inv"
    by (simp add: invited_def invite_row_def)
  have 3: "i_expiresAt ?inv = Some 500" by (simp add: invite_row_def)
  have 4: "(500 :: int) \<noteq> 0" by simp
  have 5: "500 < clock_reading (invited ?inv)"
    by (simp add: clock_reading_def invited_def busy_def quiet_def)
  have 6: "(invited ?inv)\<lparr>calls := calls (invited ?inv) @ [ListCall Invites],
              now := clock_reading (invited ?inv), env_reads := Suc (env_reads (invited ?inv)),
              toasts := toasts (invited ?inv) @ [expired_invite]\<rparr> =
           (invited ?inv)\<lparr>calls := [ListCall Invites], now := 1001, env_reads := Suc 0,
              toasts := [expired_invite]\<rparr>"
    by (simp add: clock_reading_def invited_def busy_def quiet_def)
  show ?thesis
    using 1 2 3 4 5 expired_invite_rejected[OF 1 2 3 4 5, of casey, unfolded 6]
    by (intro conjI) assumption+
qed

text \<open>
  C2 as it was stated, at two invites redeemed by the guest casey when the clock reads 1001.
  The first is active and has \<open>expiresAt = 0\<close>: the guest joins, a membership record is
  written and \<open>currentUses\<close> becomes 1. The second expired at 500 and is not active: the
  outcome is \<open>Invalid Invite\<close>, not \<open>Expired Invite\<close>.
\<close>

theorem expired_claim_counterexample:
  "i_isActive (invite_row ''conv_1'' ''abc123'' (Some 0) None 0 True) \<and>
   i_expiresAt (invite_row ''conv_1'' ''abc123'' (Some 0) None 0 True) = Some 0 \<and>
   0 < clock_reading (invited (invite_row ''conv_1'' ''abc123'' (Some 0) None 0 True)) \<and>
   toasts (handleInviteJoin casey ''abc123''
             (invited (invite_row ''conv_1'' ''abc123'' (Some 0) None 0 True))) = [joined_chat] \<and>
   map cm_userId (db_conversationMembers (handleInviteJoin casey ''abc123''
             (invited (invite_row ''conv_1'' ''abc123'' (Some 0) None 0 True))))
     = [''B'', ''A'', ''A'', ''B'', ''guest_7''] \<and>
   map i_currentUses (db_invites (handleInviteJoin casey ''abc123''
             (invited (invite_row ''conv_1'' ''abc123'' (Some 0) None 0 True)))) = [1] \<and>
   \<not> i_isActive (invite_row ''conv_1'' ''abc123'' (Some 500) None 0 False) \<and>
   i_expiresAt (invite_row ''conv_1'' ''abc123'' (Some 500) None 0 False) = Some 500 \<and>
   500 < clock_reading (invited (invite_row ''conv_1'' ''abc123'' (Some 500) None 0 False)) \<and>
   toasts (handleInviteJoin casey ''abc123''
             (invited (invite_row ''conv_1'' ''abc123'' (Some 500) None 0 False))) = [invalid_invite] \<and>
   invalid_invite \<noteq> expired_invite"
proof -
  let ?a = "invite_row ''conv_1'' ''abc123'' (Some 0) None 0 True"
  let ?b = "invite_row ''conv_1'' ''abc123'' (Some 500) None 0 False"
  have r: "reliable (invited ?a)"
    by (simp add: reliable_def invited_def busy_def quiet_def)
  have f: "find (\<lambda>i. i_inviteCode i = ''abc123'' \<and> i_isActive i) (db_invites (invited ?a)) = Some ?a"
    by (simp add: invited_def invite_row_def)
  have e: "case i_expiresAt ?a of None \<Rightarrow> True | Some e \<Rightarrow> e = 0 \<or> clock_reading (invited ?a) \<le> e"
    by (simp add: invite_row_def)
  have l: "\<not> invite_limit ?a" by (simp add: invite_limit_def invite_row_def)
  have n: "find (\<lambda>m. cm_conversationId m = i_conversationId ?a \<and> cm_userId m = u_id casey)
             (db_conversationMembers (invited ?a)) = None"
    by (simp add: invited_def busy_def quiet_def member_row_def casey_def invite_row_def)
  note j = join_new[OF r f e l n]
  have a1: "toasts (handleInviteJoin casey ''abc123'' (invited ?a)) = [joined_chat]"
    using j(1) by (simp add: invited_def busy_def quiet_def)
  have a2: "map cm_userId (db_conversationMembers (handleInviteJoin casey ''abc123'' (invited ?a)))
              = [''B'', ''A'', ''A'', ''B'', ''guest_7'']"
    using j(2) by (auto simp: invited_def busy_def quiet_def member_row_def casey_def)
  have a3: "map i_currentUses (db_invites (handleInviteJoin casey ''abc123'' (invited ?a))) = [1]"
    using j(3) by (simp add: invited_def invite_row_def)
  have b0: "\<not> fails (invited ?b) (length (calls (invited ?b)))"
    by (simp add: invited_def busy_def quiet_def)
  have b1: "find (\<lambda>i. i_inviteCode i = ''abc123'' \<and> i_isActive i) (db_invites (invited ?b)) = None"
    by (simp add: invited_def invite_row_def)
  have b2: "toasts (handleInviteJoin casey ''abc123'' (invited ?b)) = [invalid_invite]"
    by (simp add: invalid_case[OF b0 b1]) (simp add: invited_def busy_def quiet_def)
  have c: "0 < clock_reading (invited ?a)" "500 < clock_reading (invited ?b)"
    by (simp_all add: clock_reading_def invited_def busy_def quiet_def)
  have d: "i_isActive ?a" "i_expiresAt ?a = Some 0" "\<not> i_isActive ?b" "i_expiresAt ?b = Some 500"
    "invalid_invite \<noteq> expired_invite"
    by (simp_all add: invite_row_def invalid_invite_def expired_invite_def)
  show ?thesis
    using a1 a2 a3 b2 c d by (intro conjI) assumption+
qed

text \<open>
  C3, as amended. Let the lookup of active invites return the invite for the code, let the
  invite not be expired, and let its \<open>maxUses\<close> be set, different from 0 and reached by
  \<open>currentUses\<close> (equal to it, or beyond it). Then \<open>handleInviteJoin\<close> ends with the toast
  \<open>Invite Limit Reached\<close>; the only store call is the list of invites; the membership
  records and the invites, \<open>currentUses\<close> included, are what they were. (The claim as stated
  fails for \<open>maxUses = 0 = currentUses\<close>: the guard tests the truthiness of \<open>maxUses\<close>, the
  user joins and \<open>currentUses\<close> becomes 1. It also names the wrong outcome for an invite that
  is expired or not active: those end with \<open>Expired Invite\<close> and \<open>Invalid Invite\<close>.)
\<close>

theorem limit_reached_rejected:
  assumes "\<not> fails s (length (calls s))"
    and "find (\<lambda>i. i_inviteCode i = code \<and> i_isActive i) (db_invites s) = Some invite"
    and "case i_expiresAt invite of None \<Rightarrow> True | Some e \<Rightarrow> e = 0 \<or> clock_reading s \<le> e"
    and "i_maxUses invite = Some mx" and "mx \<noteq> 0" and "mx \<le> i_currentUses invite"
  shows "toasts (handleInviteJoin currentUser code s) = toasts s @ [invite_limit_reached] \<and>
         calls (handleInviteJoin currentUser code s) = calls s @ [ListCall Invites] \<and>
         db_conversationMembers (handleInviteJoin currentUser code s) = db_conversationMembers s \<and>
         db_invites (handleInviteJoin currentUser code s) = db_invites s"
proof -
  from assms(4-6) have "invite_limit invite" by (simp add: invite_limit_def)
  from limit_case[OF assms(1-3) this, of currentUser] show ?thesis
    by (simp add: same_db_def)
qed

theorem limit_reached_rejected_witness:
  "\<not> fails (invited (invite_row ''conv_1'' ''abc123'' (Some 5000) (Some 1) 1 True))
       (length (calls (invited (invite_row ''conv_1'' ''abc123'' (Some 5000) (Some 1) 1 True)))) \<and>
   find (\<lambda>i. i_inviteCode i = ''abc123'' \<and> i_isActive i)
     (db_invites (invited (invite_row ''conv_1'' ''abc123'' (Some 5000) (Some 1) 1 True)))
     = Some (invite_row ''conv_1'' ''abc123'' (Some 5000) (Some 1) 1 True) \<and>
   clock_reading (invited (invite_row ''conv_1'' ''abc123'' (Some 5000) (Some 1) 1 True)) \<le> 5000 \<and>
   i_maxUses (invite_row ''conv_1'' ''abc123'' (Some 5000) (Some 1) 1 True) = Some 1 \<and>
   i_currentUses (invite_row ''conv_1'' ''abc123'' (Some 5000) (Some 1) 1 True) = 1 \<and>
   toasts (handleInviteJoin casey ''abc123''
             (invited (invite_row ''conv_1'' ''abc123'' (Some 5000) (Some 1) 1 True)))
     = [invite_limit_reached] \<and>
   calls (handleInviteJoin casey ''abc123''
             (invited (invite_row ''conv_1'' ''abc123'' (Some 5000) (Some 1) 1 True)))
     = [ListCall Invites] \<and>
   db_conversationMembers (handleInviteJoin casey ''abc123''
             (invited (invite_row ''conv_1'' ''abc123'' (Some 5000) (Some 1) 1 True)))
     = db_conversationMembers busy \<and>
   db_invites (handleInviteJoin casey ''abc123''
             (invited (invite_row ''conv_1'' ''abc123'' (Some 5000) (Some 1) 1 True)))
     = [invite_row ''conv_1'' ''abc123'' (Some 5000) (Some 1) 1 True]"
proof -
  let ?inv = "invite_row ''conv_1'' ''abc123'' (Some 5000) (Some 1) 1 True"
  have 1: "\<not> fails (invited ?inv) (length (calls (invited ?inv)))"
    by (simp add: invited_def busy_def quiet_def)
  have 2: "find (\<lambda>i. i_inviteCode i = ''abc123'' \<and> i_isActive i) (db_invites (invited ?inv)) = Some ?inv"
    by (simp add: invited_def invite_row_def)
  have c: "clock_reading (invited ?inv) \<le> 5000"
    by (simp add: clock_reading_def invited_def busy_def quiet_def)
  then have 3: "case i_expiresAt ?inv of None \<Rightarrow> True
                | Some e \<Rightarrow> e = 0 \<or> clock_reading (invited ?inv) \<le> e"
    by (simp add: invite_row_def)
  have 4: "i_maxUses ?inv = Some 1" and 5: "(1 :: int) \<noteq> 0" and 6: "1 \<le> i_currentUses ?inv"
    and 7: "i_currentUses ?inv = 1"
    by (simp_all add: invite_row_def)
  have s: "toasts (invited ?inv) = []" "calls (invited ?inv) = []"
    "db_conversationMembers (invited ?inv) = db_conversationMembers busy"
    "db_invites (invited ?inv) = [?inv]"
    by (simp_all add: invited_def busy_def quiet_def)
  show ?thesis
    using 1 2 c 4 7 limit_reached_rejected[OF 1 2 3 4 5 6, of casey, unfolded s append_Nil]
    by (intro conjI) (assumption | elim conjE)+
qed

text \<open>
  C3 as it was stated, at three invites with \<open>currentUses = maxUses\<close> redeemed by the guest
  casey. With \<open>maxUses = 0\<close> the guest joins, a membership record is written and
  \<open>currentUses\<close> becomes 1. With the cap 1 reached, an invite that expired at 500 ends with
  \<open>Expired Invite\<close>, and one that is not active with \<open>Invalid Invite\<close>.
\<close>

theorem limit_claim_counterexample:
  "i_isActive (invite_row ''conv_1'' ''abc123'' None (Some 0) 0 True) \<and>
   i_maxUses (invite_row ''conv_1'' ''abc123'' None (Some 0) 0 True) = Some 0 \<and>
   i_currentUses (invite_row ''conv_1'' ''abc123'' None (Some 0) 0 True) = 0 \<and>
   toasts (handleInviteJoin casey ''abc123''
             (invited (invite_row ''conv_1'' ''abc123'' None (Some 0) 0 True))) = [joined_chat] \<and>
   map cm_userId (db_conversationMembers (handleInviteJoin casey ''abc123''
             (invited (invite_row ''conv_1'' ''abc123'' None (Some 0) 0 True))))
     = [''B'', ''A'', ''A'', ''B'', ''guest_7''] \<and>
   map i_currentUses (db_invites (handleInviteJoin casey ''abc123''
             (invited (invite_row ''conv_1'' ''abc123'' None (Some 0) 0 True)))) = [1] \<and>
   i_maxUses (invite_row ''conv_1'' ''abc123'' (Some 500) (Some 1) 1 True) = Some 1 \<and>
   i_currentUses (invite_row ''conv_1'' ''abc123'' (Some 500) (Some 1) 1 True) = 1 \<and>
   toasts (handleInviteJoin casey ''abc123''
             (invited (invite_row ''conv_1'' ''abc123'' (Some 500) (Some 1) 1 True))) = [expired_invite] \<and>
   i_maxUses (invite_row ''conv_1'' ''abc123'' None (Some 1) 1 False) = Some 1 \<and>
   i_currentUses (invite_row ''conv_1'' ''abc123'' None (Some 1) 1 False) = 1 \<and>
   toasts (handleInviteJoin casey ''abc123''
             (invited (invite_row ''conv_1'' ''abc123'' None (Some 1) 1 False))) = [invalid_invite] \<and>
   expired_invite \<noteq> invite_limit_reached \<and> invalid_invite \<noteq> invite_limit_reached"
proof -
  let ?a = "invite_row ''conv_1'' ''abc123'' None (Some 0) 0 True"
  let ?b = "invite_row ''conv_1'' ''abc123'' (Some 500) (Some 1) 1 True"
  let ?c = "invite_row ''conv_1'' ''abc123'' None (Some 1) 1 False"
  have r: "reliable (invited ?a)"
    by (simp add: reliable_def invited_def busy_def quiet_def)
  have f: "find (\<lambda>i. i_inviteCode i = ''abc123'' \<and> i_isActive i) (db_invites (invited ?a)) = Some ?a"
    by (simp add: invited_def invite_row_def)
  have e: "case i_expiresAt ?a of None \<Rightarrow> True | Some e \<Rightarrow> e = 0 \<or> clock_reading (invited ?a) \<le> e"
    by (simp add: invite_row_def)
  have l: "\<not> invite_limit ?a" by (simp add: invite_limit_def invite_row_def)
  have n: "find (\<lambda>m. cm_conversationId m = i_conversationId ?a \<and> cm_userId m = u_id casey)
             (db_conversationMembers (invited ?a)) = None"
    by (simp add: invited_def busy_def quiet_def member_row_def casey_def invite_row_def)
  note j = join_new[OF r f e l n]
  have a1: "toasts (handleInviteJoin casey ''abc123'' (invited ?a)) = [joined_chat]"
    using j(1) by (simp add: invited_def busy_def quiet_def)
  have a2: "map cm_userId (db_conversationMembers (handleInviteJoin casey ''abc123'' (invited ?a)))
              = [''B'', ''A'', ''A'', ''B'', ''guest_7'']"
    using j(2) by (auto simp: invited_def busy_def quiet_def member_row_def casey_def)
  have a3: "map i_currentUses (db_invites (handleInviteJoin casey ''abc123'' (invited ?a))) = [1]"
    using j(3) by (simp add: invited_def invite_row_def)
  have b0: "\<not> fails (invited ?b) (length (calls (invited ?b)))"
    by (simp add: invited_def busy_def quiet_def)
  have b1: "find (\<lambda>i. i_inviteCode i = ''abc123'' \<and> i_isActive i) (db_invites (invited ?b)) = Some ?b"
    by (simp add: invited_def invite_row_def)
  have b2: "i_expiresAt ?b = Some 500" "(500 :: int) \<noteq> 0" "500 < clock_reading (invited ?b)"
    by (simp_all add: invite_row_def clock_reading_def invited_def busy_def quiet_def)
  have b3: "toasts (handleInviteJoin casey ''abc123'' (invited ?b)) = [expired_invite]"
    by (simp add: expired_case[OF b0 b1 b2]) (simp add: invited_def busy_def quiet_def)
  have c0: "\<not> fails (invited ?c) (length (calls (invited ?c)))"
    by (simp add: invited_def busy_def quiet_def)
  have c1: "find (\<lambda>i. i_inviteCode i = ''abc123'' \<and> i_isActive i) (db_invites (invited ?c)) = None"
    by (simp add: invited_def invite_row_def)
  have c2: "toasts (handleInviteJoin casey ''abc123'' (invited ?c)) = [invalid_invite]"
    by (simp add: invalid_case[OF c0 c1]) (simp add: invited_def busy_def quiet_def)
  have d: "i_isActive ?a" "i_maxUses ?a = Some 0" "i_currentUses ?a = 0"
    "i_maxUses ?b = Some 1" "i_currentUses ?b = 1" "i_maxUses ?c = Some 1" "i_currentUses ?c = 1"
    "expired_invite \<noteq> invite_limit_reached" "invalid_invite \<noteq> invite_limit_reached"
    by (simp_all add: invite_row_def invalid_invite_def expired_invite_def invite_limit_reached_def)
  show ?thesis
    using a1 a2 a3 b3 c2 d by (intro conjI) assumption+
qed




text \<open>
  C5. For a user without membership records, \<open>loadConversations\<close> issues one store call,
  the list of the user's memberships, and no list of conversations, messages or users; when
  that call is answered, nothing of the state changes but the call log and the conversation
  list, which becomes empty.
\<close>

theorem loadConversations_no_memberships:
  assumes "\<forall>m\<in>set (db_conversationMembers s). cm_userId m \<noteq> userId"
  shows "calls (loadConversations userId s) = calls s @ [ListCall ConversationMembers] \<and>
         (\<not> fails s (length (calls s)) \<longrightarrow>
            loadConversations userId s =
              s\<lparr>calls := calls s @ [ListCall ConversationMembers], conversations := []\<rparr>)"
proof -
  from assms have "filter (\<lambda>m. cm_userId m = userId) (db_conversationMembers s) = []"
    by (simp add: filter_empty_conv)
  then show ?thesis
    by (simp add: loadConversations_def try_catch_toast_def loadConversations_body_def bind_def
        blink_conversationMembers_list_def store_call_def Let_def select_def order_desc_def
        setConversations_def)
qed

theorem loadConversations_no_memberships_witness:
  "list_all (\<lambda>m. cm_userId m \<noteq> ''A'')
     (db_conversationMembers
        (quiet\<lparr>db_conversations := [conv_1],
               db_conversationMembers := [member_row ''m1'' ''conv_1'' ''B'' Admin],
               conversations := [conv_1]\<rparr>)) \<and>
   loadConversations ''A''
     (quiet\<lparr>db_conversations := [conv_1],
            db_conversationMembers := [member_row ''m1'' ''conv_1'' ''B'' Admin],
            conversations := [conv_1]\<rparr>) =
   quiet\<lparr>db_conversations := [conv_1],
         db_conversationMembers := [member_row ''m1'' ''conv_1'' ''B'' Admin],
         calls := [ListCall ConversationMembers], conversations := []\<rparr>"
  using loadConversations_no_memberships[of
      "quiet\<lparr>db_conversations := [conv_1],
             db_conversationMembers := [member_row ''m1'' ''conv_1'' ''B'' Admin],
             conversations := [conv_1]\<rparr>" "''A''"]
  by (simp add: quiet_def member_row_def)

text \<open>
  C6. A signed-in creator makes a group with the member ids \<open>[B, C]\<close>, and the store
  answers every call. Then \<open>handleCreateGroup\<close> writes one conversation record, of type
  \<open>group\<close> with the given name, and in one \<open>createMany\<close> three membership records of that
  conversation: the creator's with role \<open>admin\<close> (\<open>guest\<close> when the creator is a guest), then
  B's and C's with role \<open>member\<close>. The two writes are the only ones; the toast is
  \<open>Group chat created successfully\<close>.
\<close>

theorem createGroup_records:
  assumes "reliable s" and "user s = Some usr"
  shows "\<exists>cid i0 i1 i2 t1 t2 t3 cl.
           db_conversations (handleCreateGroup name description [B, C] s) =
             db_conversations s @
               [\<lparr>c_id = cid, c_type = Group, c_name = Some name,
                 c_description = Some description, c_avatarUrl = None,
                 c_createdBy = u_id usr, c_createdAt = t1, c_updatedAt = t2,
                 c_lastMessageAt = t3, c_members = None, c_lastMessage = None\<rparr>] \<and>
           db_conversationMembers (handleCreateGroup name description [B, C] s) =
             db_conversationMembers s @
               [\<lparr>cm_id = i0, cm_conversationId = cid, cm_userId = u_id usr,
                 cm_role = (if truthy_bool (u_isGuest usr) then Guest else Admin),
                 cm_joinedAt = None\<rparr>,
                \<lparr>cm_id = i1, cm_conversationId = cid, cm_userId = B, cm_role = Member,
                 cm_joinedAt = None\<rparr>,
                \<lparr>cm_id = i2, cm_conversationId = cid, cm_userId = C, cm_role = Member,
                 cm_joinedAt = None\<rparr>] \<and>
           list_all is_ListCall cl \<and>
           calls (handleCreateGroup name description [B, C] s) =
             calls s @ [CreateCall Conversations, CreateManyCall ConversationMembers] @ cl \<and>
           toasts (handleCreateGroup name description [B, C] s) = toasts s @ [group_created]"
proof -
  let ?s' = "handleCreateGroup name description [B, C] s"
  let ?cid = "''conv_'' @ string_of_int (clock_reading s) @ ''_'' @ random s (Suc (env_reads s))"
  obtain mid where mid: "?s' = (loadConversations (u_id usr) mid)\<lparr>toasts := toasts (loadConversations (u_id usr) mid) @ [group_created]\<rparr>"
    and c: "\<exists>t1 t2 t3. db_conversations mid =
             db_conversations s @
               [\<lparr>c_id = ?cid, c_type = Group, c_name = Some name,
                 c_description = Some description, c_avatarUrl = None,
                 c_createdBy = u_id usr, c_createdAt = t1, c_updatedAt = t2,
                 c_lastMessageAt = t3, c_members = None, c_lastMessage = None\<rparr>]"
    and m: "\<exists>i0 i1 i2. db_conversationMembers mid =
             db_conversationMembers s @
               [\<lparr>cm_id = i0, cm_conversationId = ?cid, cm_userId = u_id usr,
                 cm_role = (if truthy_bool (u_isGuest usr) then Guest else Admin),
                 cm_joinedAt = None\<rparr>,
                \<lparr>cm_id = i1, cm_conversationId = ?cid, cm_userId = B, cm_role = Member,
                 cm_joinedAt = None\<rparr>,
                \<lparr>cm_id = i2, cm_conversationId = ?cid, cm_userId = C, cm_role = Member,
                 cm_joinedAt = None\<rparr>]"
    and l: "calls mid = calls s @ [CreateCall Conversations, CreateManyCall ConversationMembers]"
    and t: "toasts mid = toasts s" and r: "reliable mid"
    using assms
    by (simp add: handleCreateGroup_def handleCreateGroup_body_def run_defs reliable_fails
        clock_reading_def)
  from loadConversations_calls[of "u_id usr" mid] obtain cl where
    cl: "list_all is_ListCall cl" "calls (loadConversations (u_id usr) mid) = calls mid @ cl"
    by blast
  from c obtain t1 t2 t3 where c': "db_conversations mid =
             db_conversations s @
               [\<lparr>c_id = ?cid, c_type = Group, c_name = Some name,
                 c_description = Some description, c_avatarUrl = None,
                 c_createdBy = u_id usr, c_createdAt = t1, c_updatedAt = t2,
                 c_lastMessageAt = t3, c_members = None, c_lastMessage = None\<rparr>]"
    by blast
  from m obtain i0 i1 i2 where m': "db_conversationMembers mid =
             db_conversationMembers s @
               [\<lparr>cm_id = i0, cm_conversationId = ?cid, cm_userId = u_id usr,
                 cm_role = (if truthy_bool (u_isGuest usr) then Guest else Admin),
                 cm_joinedAt = None\<rparr>,
                \<lparr>cm_id = i1, cm_conversationId = ?cid, cm_userId = B, cm_role = Member,
                 cm_joinedAt = None\<rparr>,
                \<lparr>cm_id = i2, cm_conversationId = ?cid, cm_userId = C, cm_role = Member,
                 cm_joinedAt = None\<rparr>]"
    by blast
  have 1: "db_conversations ?s' = db_conversations mid"
    and 2: "db_conversationMembers ?s' = db_conversationMembers mid"
    and 3: "calls ?s' = calls s @ [CreateCall Conversations, CreateManyCall ConversationMembers] @ cl"
    and 4: "toasts ?s' = toasts s @ [group_created]"
    unfolding mid using cl(2) l t r by simp_all
  show ?thesis
    unfolding 1 2 c' m' using cl(1) 3 4 by blast
qed

theorem createGroup_records_witness:
  "reliable busy \<and> user busy = Some alice \<and> \<not> truthy_bool (u_isGuest alice) \<and>
   map (\<lambda>c. (c_type c, c_name c, c_createdBy c))
     (drop (length (db_conversations busy))
        (db_conversations (handleCreateGroup ''Team'' ''The team'' [''B'', ''C''] busy)))
     = [(Group, Some ''Team'', ''A'')] \<and>
   map (\<lambda>m. (cm_userId m, cm_role m))
     (drop (length (db_conversationMembers busy))
        (db_conversationMembers (handleCreateGroup ''Team'' ''The team'' [''B'', ''C''] busy)))
     = [(''A'', Admin), (''B'', Member), (''C'', Member)] \<and>
   toasts (handleCreateGroup ''Team'' ''The team'' [''B'', ''C''] busy) = [group_created] \<and>
   reliable (quiet\<lparr>user := Some casey\<rparr>) \<and> truthy_bool (u_isGuest casey) \<and>
   map (\<lambda>m. (cm_userId m, cm_role m))
     (db_conversationMembers
        (handleCreateGroup ''Team'' ''The team'' [''B'', ''C''] (quiet\<lparr>user := Some casey\<rparr>)))
     = [(''guest_7'', Guest), (''B'', Member), (''C'', Member)]"
proof -
  have r: "reliable busy" and u: "user busy = Some alice"
    and g: "\<not> truthy_bool (u_isGuest alice)"
    and r': "reliable (quiet\<lparr>user := Some casey\<rparr>)"
    and u': "user (quiet\<lparr>user := Some casey\<rparr>) = Some casey"
    and g': "truthy_bool (u_isGuest casey)"
    by (simp_all add: reliable_def busy_def quiet_def alice_def casey_def truthy_bool_def)
  from createGroup_records[OF r u, of "''Team''" "''The team''" "''B''" "''C''"] g
  have a: "map (\<lambda>c. (c_type c, c_name c, c_createdBy c))
     (drop (length (db_conversations busy))
        (db_conversations (handleCreateGroup ''Team'' ''The team'' [''B'', ''C''] busy)))
     = [(Group, Some ''Team'', ''A'')]"
    and b: "map (\<lambda>m. (cm_userId m, cm_role m))
     (drop (length (db_conversationMembers busy))
        (db_conversationMembers (handleCreateGroup ''Team'' ''The team'' [''B'', ''C''] busy)))
     = [(''A'', Admin), (''B'', Member), (''C'', Member)]"
    and c: "toasts (handleCreateGroup ''Team'' ''The team'' [''B'', ''C''] busy) = [group_created]"
    by (auto simp: alice_def busy_def quiet_def)
  from createGroup_records[OF r' u', of "''Team''" "''The team''" "''B''" "''C''"] g'
  have d: "map (\<lambda>m. (cm_userId m, cm_role m))
     (db_conversationMembers
        (handleCreateGroup ''Team'' ''The team'' [''B'', ''C''] (quiet\<lparr>user := Some casey\<rparr>)))
     = [(''guest_7'', Guest), (''B'', Member), (''C'', Member)]"
    by (auto simp: casey_def quiet_def)
  show ?thesis
    using r u g a b c r' g' d by (intro conjI) assumption+
qed

text \<open>
  C7. When the typed text is empty or made of white space only (a concatenation of
  encodings from \<open>whitespace\<close>), \<open>sendMessage\<close> returns at once: the state after it is the
  state before it, so no message is created, no conversation is updated, no store call is
  logged, and the thread is unchanged.
\<close>

theorem sendMessage_blank:
  assumes "set ws \<subseteq> set whitespace" and "newMessage s = concat ws"
  shows "sendMessage usr conversation onRefresh s = s"
  using assms by (simp add: sendMessage_def trim_blank)

theorem sendMessage_blank_witness:
  "set [[CHR 0x20], [CHR 0x09], [CHR 0xC2, CHR 0xA0], [CHR 0x0A]] \<subseteq> set whitespace \<and>
   newMessage (busy\<lparr>newMessage := [CHR 0x20, CHR 0x09, CHR 0xC2, CHR 0xA0, CHR 0x0A]\<rparr>) =
     concat [[CHR 0x20], [CHR 0x09], [CHR 0xC2, CHR 0xA0], [CHR 0x0A]] \<and>
   sendMessage alice conv_1 (chatView_onRefresh alice)
     (busy\<lparr>newMessage := [CHR 0x20, CHR 0x09, CHR 0xC2, CHR 0xA0, CHR 0x0A]\<rparr>) =
   busy\<lparr>newMessage := [CHR 0x20, CHR 0x09, CHR 0xC2, CHR 0xA0, CHR 0x0A]\<rparr> \<and>
   set [] \<subseteq> set whitespace \<and> newMessage busy = concat [] \<and>
   sendMessage alice conv_1 (chatView_onRefresh alice) busy = busy"
proof -
  let ?ws = "[[CHR 0x20], [CHR 0x09], [CHR 0xC2, CHR 0xA0], [CHR 0x0A]]"
  let ?s = "busy\<lparr>newMessage := [CHR 0x20, CHR 0x09, CHR 0xC2, CHR 0xA0, CHR 0x0A]\<rparr>"
  have 1: "set ?ws \<subseteq> set whitespace" by (simp add: whitespace_def)
  have 2: "newMessage ?s = concat ?ws" by simp
  have 3: "set [] \<subseteq> set whitespace" by simp
  have 4: "newMessage busy = concat []" by (simp add: busy_def quiet_def)
  show ?thesis
    using 1 2 sendMessage_blank[OF 1 2, of alice conv_1 "chatView_onRefresh alice"]
      3 4 sendMessage_blank[OF 3 4, of alice conv_1 "chatView_onRefresh alice"]
    by (intro conjI) assumption+
qed

text \<open>
  C8. After a load that the store answered, every listed conversation that has messages
  carries a preview taken from a message of that conversation with the greatest
  \<open>createdAt\<close>. The preview text is the content of that message when the content is
  present and not empty; otherwise it is the paperclip sign, a space and the file name when
  the message type is \<open>file\<close>, and \<open>File\<close> for every other type, \<open>image\<close> included. (An
  absent file name prints as \<open>undefined\<close>, as in a template literal.)
\<close>

theorem preview_of_last_message:
  assumes "reliable s"
    and "cv \<in> set (conversations (loadConversations userId s))"
    and "\<exists>m\<in>set (db_messages s). m_conversationId m = c_id cv"
  shows "\<exists>msg lm. c_lastMessage cv = Some lm \<and> msg \<in> set (db_messages s) \<and>
           m_conversationId msg = c_id cv \<and>
           (\<forall>m\<in>set (db_messages s). m_conversationId m = c_id cv \<longrightarrow> m_createdAt m \<le> m_createdAt msg) \<and>
           (\<forall>t. m_content msg = Some t \<and> t \<noteq> [] \<longrightarrow> lm_content lm = t) \<and>
           (m_content msg = None \<or> m_content msg = Some [] \<longrightarrow>
              (m_messageType msg = File \<longrightarrow>
                 lm_content lm = paperclip @ '' '' @ template_str (m_fileName msg)) \<and>
              (m_messageType msg \<noteq> File \<longrightarrow> lm_content lm = ''File''))"
proof -
  from loadConversations_ok[OF assms(1), of userId] assms(2)
  have "cv \<in> set (conversations_for s userId)" by auto
  then obtain conv where cv: "cv = details_in s conv"
    using conversations_for_member by blast
  from assms(3) have "\<exists>m\<in>set (db_messages s). m_conversationId m = c_id conv"
    by (simp add: cv)
  from last_message_in_preview[OF this] obtain msg lm where
    "last_message_in s conv = Some lm" "msg \<in> set (db_messages s)"
    "m_conversationId msg = c_id conv"
    "\<forall>m\<in>set (db_messages s). m_conversationId m = c_id conv \<longrightarrow> m_createdAt m \<le> m_createdAt msg"
    "lm_content lm = preview_content msg"
    by blast
  then show ?thesis
    by (intro exI[of _ msg] exI[of _ lm])
       (auto simp: cv preview_content_def truthy_str_def split: option.splits)
qed


theorem preview_of_last_message_witness:
  "reliable busy \<and>
   details_in busy (conv_1\<lparr>c_lastMessageAt := 300\<rparr>)
     \<in> set (conversations (loadConversations ''A'' busy)) \<and>
   (\<exists>m\<in>set (db_messages busy).
      m_conversationId m = c_id (details_in busy (conv_1\<lparr>c_lastMessageAt := 300\<rparr>))) \<and>
   map_option lm_content (c_lastMessage (details_in busy (conv_1\<lparr>c_lastMessageAt := 300\<rparr>)))
     = Some (paperclip @ '' report.pdf'') \<and>
   map_option lm_content (c_lastMessage (details_in busy conv_2)) = Some ''File'' \<and>
   (\<exists>msg lm. c_lastMessage (details_in busy (conv_1\<lparr>c_lastMessageAt := 300\<rparr>)) = Some lm \<and>
      msg \<in> set (db_messages busy) \<and>
      m_conversationId msg = c_id (details_in busy (conv_1\<lparr>c_lastMessageAt := 300\<rparr>)) \<and>
      (\<forall>m\<in>set (db_messages busy).
         m_conversationId m = c_id (details_in busy (conv_1\<lparr>c_lastMessageAt := 300\<rparr>))
           \<longrightarrow> m_createdAt m \<le> m_createdAt msg) \<and>
      (\<forall>t. m_content msg = Some t \<and> t \<noteq> [] \<longrightarrow> lm_content lm = t) \<and>
      (m_content msg = None \<or> m_content msg = Some [] \<longrightarrow>
         (m_messageType msg = File \<longrightarrow>
            lm_content lm = paperclip @ '' '' @ template_str (m_fileName msg)) \<and>
         (m_messageType msg \<noteq> File \<longrightarrow> lm_content lm = ''File'')))"
proof -
  have r: "reliable busy"
    by (simp add: reliable_def busy_def quiet_def)
  have "conversations_for busy ''A'' = map (details_in busy) [conv_1\<lparr>c_lastMessageAt := 300\<rparr>, conv_2]"
    by (simp add: conversations_for_def busy_def quiet_def select_def order_desc_def
        member_row_def Let_def conv_1_def conv_2_def)
  then have h: "details_in busy (conv_1\<lparr>c_lastMessageAt := 300\<rparr>)
                  \<in> set (conversations (loadConversations ''A'' busy))"
    by (simp add: loadConversations_conversations[OF r])
  have m: "\<exists>m\<in>set (db_messages busy).
      m_conversationId m = c_id (details_in busy (conv_1\<lparr>c_lastMessageAt := 300\<rparr>))"
    by (simp add: busy_def quiet_def message_row_def conv_1_def)
  have p1: "map_option lm_content (c_lastMessage (details_in busy (conv_1\<lparr>c_lastMessageAt := 300\<rparr>)))
     = Some (paperclip @ '' report.pdf'')"
    by (simp add: last_message_in_def busy_def quiet_def select_def order_desc_def conv_1_def
        message_row_def preview_content_def truthy_str_def template_str_def)
  have p2: "map_option lm_content (c_lastMessage (details_in busy conv_2)) = Some ''File''"
    by (simp add: last_message_in_def busy_def quiet_def select_def order_desc_def conv_2_def
        message_row_def preview_content_def truthy_str_def template_str_def)
  show ?thesis
    using r h m p1 p2 preview_of_last_message[OF r h m]
    by (intro conjI) assumption+
qed

text \<open>
  C9. Let the store answer every call, let the lookup return the invite, active, not
  expired and under its cap, let the user already have a membership record of the invite's
  conversation, and let that conversation exist. Then \<open>handleInviteJoin\<close> writes nothing:
  the membership records and the invites (so \<open>currentUses\<close>) are unchanged and every store
  call it issued is a list call. It still completes: the conversation list is the one a load
  for the user gives and holds the invite's conversation, that conversation is selected,
  and the last toast is \<open>Joined Chat!\<close>.
\<close>

theorem already_member_joins_without_write:
  assumes "reliable s"
    and "find (\<lambda>i. i_inviteCode i = code \<and> i_isActive i) (db_invites s) = Some invite"
    and "case i_expiresAt invite of None \<Rightarrow> True | Some e \<Rightarrow> clock_reading s \<le> e"
    and "case i_maxUses invite of None \<Rightarrow> True | Some mx \<Rightarrow> i_currentUses invite < mx"
    and "\<exists>m\<in>set (db_conversationMembers s).
           cm_conversationId m = i_conversationId invite \<and> cm_userId m = u_id currentUser"
    and "\<exists>c\<in>set (db_conversations s). c_id c = i_conversationId invite"
  shows "db_conversationMembers (handleInviteJoin currentUser code s) = db_conversationMembers s \<and>
         db_invites (handleInviteJoin currentUser code s) = db_invites s \<and>
         (\<exists>cl. list_all is_ListCall cl \<and>
               calls (handleInviteJoin currentUser code s) = calls s @ cl) \<and>
         conversations (handleInviteJoin currentUser code s) =
           conversations (loadConversations (u_id currentUser) s) \<and>
         (\<exists>cv\<in>set (conversations (handleInviteJoin currentUser code s)).
            c_id cv = i_conversationId invite) \<and>
         (\<exists>c\<in>set (db_conversations s). c_id c = i_conversationId invite \<and>
            selectedConversation (handleInviteJoin currentUser code s) = Some c) \<and>
         toasts (handleInviteJoin currentUser code s) = toasts s @ [joined_chat]"
proof -
  from assms(3) have e: "case i_expiresAt invite of None \<Rightarrow> True
                         | Some e \<Rightarrow> e = 0 \<or> clock_reading s \<le> e"
    by (simp split: option.splits)
  from assms(4) have l: "\<not> invite_limit invite"
    by (simp add: invite_limit_def split: option.splits)
  from find_Some_ex[OF assms(5)] obtain m where
    m: "find (\<lambda>m. cm_conversationId m = i_conversationId invite \<and> cm_userId m = u_id currentUser)
          (db_conversationMembers s) = Some m"
    and m': "m \<in> set (db_conversationMembers s)" "cm_conversationId m = i_conversationId invite"
      "cm_userId m = u_id currentUser"
    by blast
  from find_Some_ex[OF assms(6)] obtain c where
    c: "find (\<lambda>c. c_id c = i_conversationId invite) (db_conversations s) = Some c"
       "c \<in> set (db_conversations s)" "c_id c = i_conversationId invite"
    by blast
  note j = join_existing[OF assms(1,2) e l m] join_existing_calls[OF assms(1,2) e l m]
  have "selectedConversation (handleInviteJoin currentUser code s) = Some c"
    using j(4) by (simp add: c(1))
  with c(2,3) have sel: "\<exists>c\<in>set (db_conversations s). c_id c = i_conversationId invite \<and>
            selectedConversation (handleInviteJoin currentUser code s) = Some c"
    by blast
  have load: "conversations (handleInviteJoin currentUser code s) =
                conversations (loadConversations (u_id currentUser) s)"
    using j(3) by (simp add: loadConversations_conversations[OF assms(1)])
  have "details_in s c \<in> set (conversations_for s (u_id currentUser))"
    using m' c(2,3) by (intro conversations_for_contains[of m]) simp_all
  then have listed: "\<exists>cv\<in>set (conversations (handleInviteJoin currentUser code s)).
      c_id cv = i_conversationId invite"
    unfolding j(3) using c(3) by (intro bexI[of _ "details_in s c"]) simp_all
  from j(1,2,5) sel load listed show ?thesis
    by (simp add: same_db_def)
qed

theorem already_member_joins_without_write_witness:
  "reliable (busy\<lparr>db_invites := [invite_row ''conv_1'' ''abc123'' (Some 5000) (Some 10) 3 True]\<rparr>) \<and>
   find (\<lambda>i. i_inviteCode i = ''abc123'' \<and> i_isActive i)
     (db_invites (busy\<lparr>db_invites := [invite_row ''conv_1'' ''abc123'' (Some 5000) (Some 10) 3 True]\<rparr>))
     = Some (invite_row ''conv_1'' ''abc123'' (Some 5000) (Some 10) 3 True) \<and>
   clock_reading (busy\<lparr>db_invites := [invite_row ''conv_1'' ''abc123'' (Some 5000) (Some 10) 3 True]\<rparr>)
     \<le> 5000 \<and>
   i_currentUses (invite_row ''conv_1'' ''abc123'' (Some 5000) (Some 10) 3 True) < 10 \<and>
   db_conversationMembers (handleInviteJoin alice ''abc123''
      (busy\<lparr>db_invites := [invite_row ''conv_1'' ''abc123'' (Some 5000) (Some 10) 3 True]\<rparr>))
     = db_conversationMembers busy \<and>
   db_invites (handleInviteJoin alice ''abc123''
      (busy\<lparr>db_invites := [invite_row ''conv_1'' ''abc123'' (Some 5000) (Some 10) 3 True]\<rparr>))
     = [invite_row ''conv_1'' ''abc123'' (Some 5000) (Some 10) 3 True] \<and>
   map c_id (conversations (handleInviteJoin alice ''abc123''
      (busy\<lparr>db_invites := [invite_row ''conv_1'' ''abc123'' (Some 5000) (Some 10) 3 True]\<rparr>)))
     = [''conv_1'', ''conv_2''] \<and>
   selectedConversation (handleInviteJoin alice ''abc123''
      (busy\<lparr>db_invites := [invite_row ''conv_1'' ''abc123'' (Some 5000) (Some 10) 3 True]\<rparr>))
     = Some (conv_1\<lparr>c_lastMessageAt := 300\<rparr>) \<and>
   toasts (handleInviteJoin alice ''abc123''
      (busy\<lparr>db_invites := [invite_row ''conv_1'' ''abc123'' (Some 5000) (Some 10) 3 True]\<rparr>))
     = [joined_chat]"
proof -
  let ?inv = "invite_row ''conv_1'' ''abc123'' (Some 5000) (Some 10) 3 True"
  let ?s = "busy\<lparr>db_invites := [?inv]\<rparr>"
  have 1: "reliable ?s" by (simp add: reliable_def busy_def quiet_def)
  have 2: "find (\<lambda>i. i_inviteCode i = ''abc123'' \<and> i_isActive i) (db_invites ?s) = Some ?inv"
    by (simp add: invite_row_def)
  have c: "clock_reading ?s \<le> 5000" by (simp add: clock_reading_def busy_def quiet_def)
  then have 3: "case i_expiresAt ?inv of None \<Rightarrow> True | Some e \<Rightarrow> clock_reading ?s \<le> e"
    by (simp add: invite_row_def)
  have u: "i_currentUses ?inv < 10" by (simp add: invite_row_def)
  then have 4: "case i_maxUses ?inv of None \<Rightarrow> True | Some mx \<Rightarrow> i_currentUses ?inv < mx"
    by (simp add: invite_row_def)
  have 5: "\<exists>m\<in>set (db_conversationMembers ?s).
             cm_conversationId m = i_conversationId ?inv \<and> cm_userId m = u_id alice"
    by (simp add: busy_def quiet_def member_row_def invite_row_def alice_def)
  have 6: "\<exists>c\<in>set (db_conversations ?s). c_id c = i_conversationId ?inv"
    by (simp add: busy_def quiet_def conv_1_def invite_row_def)
  note t = already_member_joins_without_write[OF 1 2 3 4 5 6]
  have l: "map c_id (conversations (loadConversations (u_id alice) ?s)) = [''conv_1'', ''conv_2'']"
    by (simp add: loadConversations_conversations[OF 1])
       (simp add: conversations_for_def busy_def quiet_def select_def order_desc_def
          member_row_def Let_def conv_1_def conv_2_def alice_def)
  have a: "db_conversationMembers (handleInviteJoin alice ''abc123'' ?s) = db_conversationMembers busy"
    using t by simp
  have b: "db_invites (handleInviteJoin alice ''abc123'' ?s) = [?inv]"
    using t by simp
  have d: "map c_id (conversations (handleInviteJoin alice ''abc123'' ?s)) = [''conv_1'', ''conv_2'']"
    using t l by simp
  have e: "selectedConversation (handleInviteJoin alice ''abc123'' ?s) = Some (conv_1\<lparr>c_lastMessageAt := 300\<rparr>)"
    using t by (auto simp: busy_def quiet_def conv_1_def conv_2_def invite_row_def)
  have f: "toasts (handleInviteJoin alice ''abc123'' ?s) = [joined_chat]"
    using t by (simp add: busy_def quiet_def)
  show ?thesis
    using 1 2 c u a b d e f by (intro conjI) assumption+
qed

text \<open>
  C10. The guards of \<open>handleInviteJoin\<close> test truthiness. With the store answering and the
  lookup returning the invite: an invite whose \<open>maxUses\<close> is 0 passes the cap check whatever
  its \<open>currentUses\<close>, so unless it is expired the user ends as a member and the toast is
  \<open>Joined Chat!\<close>; and an invite whose \<open>expiresAt\<close> is 0 passes the expiry check whatever the
  clock reads, so unless its cap is reached the same happens.
\<close>

theorem zero_is_unset:
  assumes "reliable s"
    and "find (\<lambda>i. i_inviteCode i = code \<and> i_isActive i) (db_invites s) = Some invite"
  shows "(i_maxUses invite = Some 0 \<and>
            (case i_expiresAt invite of None \<Rightarrow> True | Some e \<Rightarrow> e = 0 \<or> clock_reading s \<le> e)
          \<longrightarrow> toasts (handleInviteJoin currentUser code s) = toasts s @ [joined_chat] \<and>
              (\<exists>m\<in>set (db_conversationMembers (handleInviteJoin currentUser code s)).
                 cm_conversationId m = i_conversationId invite \<and> cm_userId m = u_id currentUser)) \<and>
         (i_expiresAt invite = Some 0 \<and>
            (case i_maxUses invite of None \<Rightarrow> True | Some mx \<Rightarrow> mx = 0 \<or> i_currentUses invite < mx)
          \<longrightarrow> toasts (handleInviteJoin currentUser code s) = toasts s @ [joined_chat] \<and>
              (\<exists>m\<in>set (db_conversationMembers (handleInviteJoin currentUser code s)).
                 cm_conversationId m = i_conversationId invite \<and> cm_userId m = u_id currentUser))"
proof -
  have joined: "toasts (handleInviteJoin currentUser code s) = toasts s @ [joined_chat] \<and>
              (\<exists>m\<in>set (db_conversationMembers (handleInviteJoin currentUser code s)).
                 cm_conversationId m = i_conversationId invite \<and> cm_userId m = u_id currentUser)"
    if e: "case i_expiresAt invite of None \<Rightarrow> True | Some e \<Rightarrow> e = 0 \<or> clock_reading s \<le> e"
      and l: "\<not> invite_limit invite"
  proof (cases "find (\<lambda>m. cm_conversationId m = i_conversationId invite \<and> cm_userId m = u_id currentUser)
                  (db_conversationMembers s)")
    case None
    from join_new(1,2)[OF assms e l None] show ?thesis by auto
  next
    case (Some m)
    then have "m \<in> set (db_conversationMembers s)"
      "cm_conversationId m = i_conversationId invite \<and> cm_userId m = u_id currentUser"
      by (auto simp: find_Some_iff in_set_conv_nth)
    with join_existing(1,2)[OF assms e l Some] show ?thesis
      by (auto simp: same_db_def)
  qed
  show ?thesis
  proof (intro conjI impI)
    assume a: "i_maxUses invite = Some 0 \<and>
      (case i_expiresAt invite of None \<Rightarrow> True | Some e \<Rightarrow> e = 0 \<or> clock_reading s \<le> e)"
    then have "\<not> invite_limit invite" by (simp add: invite_limit_def)
    with a joined show "toasts (handleInviteJoin currentUser code s) = toasts s @ [joined_chat]"
      and "\<exists>m\<in>set (db_conversationMembers (handleInviteJoin currentUser code s)).
             cm_conversationId m = i_conversationId invite \<and> cm_userId m = u_id currentUser"
      by blast+
  next
    assume a: "i_expiresAt invite = Some 0 \<and>
      (case i_maxUses invite of None \<Rightarrow> True | Some mx \<Rightarrow> mx = 0 \<or> i_currentUses invite < mx)"
    then have "\<not> invite_limit invite"
      and "case i_expiresAt invite of None \<Rightarrow> True | Some e \<Rightarrow> e = 0 \<or> clock_reading s \<le> e"
      by (auto simp: invite_limit_def split: option.splits)
    with joined show "toasts (handleInviteJoin currentUser code s) = toasts s @ [joined_chat]"
      and "\<exists>m\<in>set (db_conversationMembers (handleInviteJoin currentUser code s)).
             cm_conversationId m = i_conversationId invite \<and> cm_userId m = u_id currentUser"
      by blast+
  qed
qed

theorem zero_is_unset_witness:
  "reliable (invited (invite_row ''conv_1'' ''abc123'' (Some 0) (Some 0) 7 True)) \<and>
   find (\<lambda>i. i_inviteCode i = ''abc123'' \<and> i_isActive i)
     (db_invites (invited (invite_row ''conv_1'' ''abc123'' (Some 0) (Some 0) 7 True)))
     = Some (invite_row ''conv_1'' ''abc123'' (Some 0) (Some 0) 7 True) \<and>
   i_maxUses (invite_row ''conv_1'' ''abc123'' (Some 0) (Some 0) 7 True) = Some 0 \<and>
   i_expiresAt (invite_row ''conv_1'' ''abc123'' (Some 0) (Some 0) 7 True) = Some 0 \<and>
   i_currentUses (invite_row ''conv_1'' ''abc123'' (Some 0) (Some 0) 7 True) = 7 \<and>
   0 < clock_reading (invited (invite_row ''conv_1'' ''abc123'' (Some 0) (Some 0) 7 True)) \<and>
   toasts (handleInviteJoin casey ''abc123''
             (invited (invite_row ''conv_1'' ''abc123'' (Some 0) (Some 0) 7 True))) = [joined_chat] \<and>
   (\<exists>m\<in>set (db_conversationMembers (handleInviteJoin casey ''abc123''
             (invited (invite_row ''conv_1'' ''abc123'' (Some 0) (Some 0) 7 True)))).
      cm_conversationId m = ''conv_1'' \<and> cm_userId m = ''guest_7'')"
proof -
  let ?inv = "invite_row ''conv_1'' ''abc123'' (Some 0) (Some 0) 7 True"
  have 1: "reliable (invited ?inv)"
    by (simp add: reliable_def invited_def busy_def quiet_def)
  have 2: "find (\<lambda>i. i_inviteCode i = ''abc123'' \<and> i_isActive i) (db_invites (invited ?inv)) = Some ?inv"
    by (simp add: invited_def invite_row_def)
  have 3: "i_maxUses ?inv = Some 0" "i_expiresAt ?inv = Some 0" "i_currentUses ?inv = 7"
    "0 < clock_reading (invited ?inv)"
    by (simp_all add: invite_row_def clock_reading_def invited_def busy_def quiet_def)
  have 4: "i_maxUses ?inv = Some 0 \<and>
      (case i_expiresAt ?inv of None \<Rightarrow> True | Some e \<Rightarrow> e = 0 \<or> clock_reading (invited ?inv) \<le> e)"
    by (simp add: invite_row_def)
  from zero_is_unset[OF 1 2, of casey] 4
  have "toasts (handleInviteJoin casey ''abc123'' (invited ?inv)) = toasts (invited ?inv) @ [joined_chat]"
    and "\<exists>m\<in>set (db_conversationMembers (handleInviteJoin casey ''abc123'' (invited ?inv))).
           cm_conversationId m = i_conversationId ?inv \<and> cm_userId m = u_id casey"
    by blast+
  then have 5: "toasts (handleInviteJoin casey ''abc123'' (invited ?inv)) = [joined_chat]"
    and 6: "\<exists>m\<in>set (db_conversationMembers (handleInviteJoin casey ''abc123'' (invited ?inv))).
           cm_conversationId m = ''conv_1'' \<and> cm_userId m = ''guest_7''"
    by (simp_all add: invited_def busy_def quiet_def invite_row_def casey_def)
  show ?thesis
    using 1 2 3 5 6 by (intro conjI) assumption+
qed

end
